theory Spec2Isabelle
  imports
    Main
    "HOL-Library.Sublist"
    "HOL-Library.AList"
    "HOL-Library.Char_ord"
    "HOL-Library.List_Lexorder"
begin

section \<open>Arty: the collection store of \<^verbatim>\<open>api/Collection.py\<close>\<close>

text \<open>
  The module keeps the metadata of a directory of images in a hidden file
  \<^verbatim>\<open>.collection\<close> inside that directory. This theory embeds the three classes of the
  module (\<^verbatim>\<open>CollectionManager\<close>, \<^verbatim>\<open>Collection\<close>, \<^verbatim>\<open>CollectionImage\<close>) and the part of the
  Python runtime they touch: string methods, \<^verbatim>\<open>ntpath.basename\<close>, a file system, and
  \<^verbatim>\<open>json.dumps\<close> and \<^verbatim>\<open>json.loads\<close> on the text of the meta file.

  Conventions.
  \<^item> A Python \<^verbatim>\<open>str\<close> is a \<^typ>\<open>string\<close>; \<^verbatim>\<open>Optional[str]\<close> is \<^typ>\<open>string option\<close>.
  \<^item> Every exception the code can raise is a constructor of \<open>error\<close>; a function that can
    raise returns \<open>error + 'a\<close>, with \<open>Inl\<close> the exception.
  \<^item> A function that writes to disk, or replaces the attributes of \<^verbatim>\<open>self\<close>, returns the
    state it leaves behind next to its outcome, also when it raises: the state returned
    with \<open>Inl e\<close> is the state at the moment \<open>e\<close> was raised.
\<close>

subsection \<open>Exceptions\<close>

datatype error =
    FileNotFoundError
  | IsADirectoryError
  | SameFileError
  | ValueError
  | TypeError
  | KeyError
  | JSONDecodeError

text \<open>Running \<open>f\<close> on the value of \<open>r\<close>, unless \<open>r\<close> raised.\<close>

definition and_then :: "error + 'a \<Rightarrow> ('a \<Rightarrow> error + 'b) \<Rightarrow> error + 'b" where
  "and_then r f = (case r of Inl e \<Rightarrow> Inl e | Inr v \<Rightarrow> f v)"

subsection \<open>The dataclasses\<close>

record CollectionImage =
  filename :: string
  title :: "string option"
  artist :: "string option"
  year :: "string option"
  technique :: "string option"
  conservation_site :: "string option"
  production_site :: "string option"
  dimensions :: "string option"

record Collection =
  work_directory :: string
  title :: "string option"
  collection :: "CollectionImage list"

text \<open>
  Both dataclasses have a field \<^verbatim>\<open>title\<close>: \<open>CollectionImage.title\<close> is the image's and
  \<open>Collection.title\<close> the collection's.

  \<^verbatim>\<open>CollectionImage(filename)\<close>: every other field takes its default \<^verbatim>\<open>None\<close>.
\<close>

definition new_image :: "string \<Rightarrow> CollectionImage" where
  "new_image name =
     \<lparr>filename = name, CollectionImage.title = None, artist = None, year = None,
      technique = None, conservation_site = None, production_site = None,
      dimensions = None\<rparr>"

text \<open>\<^verbatim>\<open>CollectionImage.__eq__\<close>: the same filename.\<close>

definition eq_image :: "CollectionImage \<Rightarrow> CollectionImage \<Rightarrow> bool" where
  "eq_image self other = (filename self = filename other)"

text \<open>\<^verbatim>\<open>x in xs\<close> on a list: some element equals \<open>x\<close> by \<^verbatim>\<open>__eq__\<close>.\<close>

definition contains :: "CollectionImage list \<Rightarrow> CollectionImage \<Rightarrow> bool" where
  "contains xs x = list_ex (\<lambda>e. eq_image e x) xs"

subsection \<open>\<^verbatim>\<open>CollectionImage.to_reference\<close>\<close>

text \<open>
  The truth value of an \<^verbatim>\<open>Optional[str]\<close>: \<^verbatim>\<open>None\<close> and the empty string are false.
\<close>

definition truthy :: "string option \<Rightarrow> bool" where
  "truthy v = (case v of None \<Rightarrow> False | Some s \<Rightarrow> s \<noteq> [])"

text \<open>\<^verbatim>\<open>v + s\<close> for a string \<open>s\<close>: \<^verbatim>\<open>None + s\<close> raises \<^verbatim>\<open>TypeError\<close>.\<close>

definition plus_str :: "string option \<Rightarrow> string \<Rightarrow> error + string" where
  "plus_str v s = (case v of None \<Rightarrow> Inl TypeError | Some x \<Rightarrow> Inr (x @ s))"

text \<open>What \<^verbatim>\<open>str.format\<close> puts in place of \<^verbatim>\<open>{name}\<close>: \<^verbatim>\<open>str(v)\<close>.\<close>

definition format_value :: "string option \<Rightarrow> string" where
  "format_value v = (case v of None \<Rightarrow> ''None'' | Some x \<Rightarrow> x)"

text \<open>
  The keyword arguments of \<^verbatim>\<open>format\<close> are evaluated in the order they are written; the
  template then places them in its own order
  \<^verbatim>\<open>{artist_if_artist}{title}{production_site_if_no_artist}{date}{technique}{dimensions}{conservation_site}\<close>.
\<close>

definition to_reference :: "CollectionImage \<Rightarrow> error + string" where
  "to_reference self =
     and_then (if truthy (artist self) then plus_str (artist self) '', '' else Inr [])
       (\<lambda>artist_if_artist.
     and_then (plus_str (CollectionImage.title self) '', '')
       (\<lambda>title_arg.
     and_then (if \<not> truthy (artist self) then plus_str (production_site self) '', ''
               else Inr [])
       (\<lambda>production_site_if_no_artist.
     and_then (plus_str (year self) '', '')
       (\<lambda>date.
     and_then (plus_str (technique self) '', '')
       (\<lambda>technique_arg.
     and_then (plus_str (dimensions self) '', '')
       (\<lambda>dimensions_arg.
     Inr (artist_if_artist @ title_arg @ production_site_if_no_artist @ date
          @ technique_arg @ dimensions_arg
          @ format_value (conservation_site self))))))))"

subsection \<open>Strings and paths\<close>

text \<open>
  \<^verbatim>\<open>str.lower\<close>. A \<^typ>\<open>char\<close> is a byte, so the model lowers the ASCII letters and keeps
  every other character. No character outside ASCII lowers to one of the letters of an
  authorized extension, so the suffix test below reads the same on Python's strings.
\<close>

definition lower_char :: "char \<Rightarrow> char" where
  "lower_char c =
     (case map_of (zip ''ABCDEFGHIJKLMNOPQRSTUVWXYZ'' ''abcdefghijklmnopqrstuvwxyz'') c of
        None \<Rightarrow> c
      | Some l \<Rightarrow> l)"

definition lower :: "string \<Rightarrow> string" where
  "lower s = map lower_char s"

text \<open>\<^verbatim>\<open>s.endswith(t)\<close> for a tuple \<open>t\<close> of suffixes, and \<^verbatim>\<open>s.startswith(p)\<close>.\<close>

definition endswith :: "string \<Rightarrow> string list \<Rightarrow> bool" where
  "endswith s sufs = list_ex (\<lambda>x. suffix x s) sufs"

definition startswith :: "string \<Rightarrow> string \<Rightarrow> bool" where
  "startswith s p = prefix p s"

definition AUTHORIZED_IMAGE_FORMATS :: "string list" where
  "AUTHORIZED_IMAGE_FORMATS = [''.jpg'', ''.jpeg'', ''.png'', ''.webp'', ''.tiff'']"

definition META_FILENAME :: string where
  "META_FILENAME = ''.collection''"

text \<open>
  \<^verbatim>\<open>ntpath.basename\<close>, as in Python 3.7 and 3.8: \<^verbatim>\<open>splitdrive\<close> removes a drive letter
  (\<^verbatim>\<open>C:\<close>) or a UNC mount point (\<^verbatim>\<open>\\host\share\<close>), and the base name is what follows the
  last slash or backslash of the rest.
\<close>

definition is_sep :: "char \<Rightarrow> bool" where
  "is_sep c = (c = CHR ''/'' \<or> c = CHR 0x5C)"

text \<open>\<^verbatim>\<open>normp.find(sep, start)\<close>, with \<^verbatim>\<open>-1\<close> as \<open>None\<close>.\<close>

definition find_sep :: "string \<Rightarrow> nat \<Rightarrow> nat option" where
  "find_sep p start =
     (case filter (\<lambda>i. is_sep (p ! i)) [start ..< length p] of
        [] \<Rightarrow> None
      | i # _ \<Rightarrow> Some i)"

definition splitdrive :: "string \<Rightarrow> string \<times> string" where
  "splitdrive p =
     (if 2 \<le> length p then
        if is_sep (p ! 0) \<and> is_sep (p ! 1) \<and> \<not> (2 < length p \<and> is_sep (p ! 2)) then
          (case find_sep p 2 of
             None \<Rightarrow> ([], p)
           | Some index \<Rightarrow>
               (case find_sep p (index + 1) of
                  None \<Rightarrow> (p, [])
                | Some index2 \<Rightarrow>
                    if index2 = index + 1 then ([], p)
                    else (take index2 p, drop index2 p)))
        else if p ! 1 = CHR '':'' then (take 2 p, drop 2 p)
        else ([], p)
      else ([], p))"

definition basename :: "string \<Rightarrow> string" where
  "basename p = rev (takeWhile (\<lambda>c. \<not> is_sep c) (rev (snd (splitdrive p))))"

text \<open>
  \<^verbatim>\<open>posixpath.split\<close>: how the operating system reads a path as a directory and an
  entry of it. The head loses its trailing slashes unless it consists of slashes only.
\<close>

definition os_path_split :: "string \<Rightarrow> string \<times> string" where
  "os_path_split p =
     (let tail = rev (takeWhile (\<lambda>c. c \<noteq> CHR ''/'') (rev p));
          head = take (length p - length tail) p
      in if head \<noteq> [] \<and> \<not> list_all (\<lambda>c. c = CHR ''/'') head
         then (rev (dropWhile (\<lambda>c. c = CHR ''/'') (rev head)), tail)
         else (head, tail))"

subsection \<open>JSON documents\<close>

text \<open>
  What \<^verbatim>\<open>json.loads\<close> returns and \<^verbatim>\<open>json.dumps\<close> takes. An object is the list of its
  items in insertion order, looked up with \<^const>\<open>map_of\<close>. A number is kept as the text of
  its literal: the code never computes with one.
\<close>

datatype json =
    JNull
  | JBool bool
  | JNum string
  | JStr string
  | JArr "json list"
  | JObj "(string \<times> json) list"

definition optional_to_json :: "string option \<Rightarrow> json" where
  "optional_to_json v = (case v of None \<Rightarrow> JNull | Some s \<Rightarrow> JStr s)"

text \<open>
  \<^verbatim>\<open>to_dict\<close> of \<^verbatim>\<open>dataclass_json\<close>: one item per field, in the order of the fields, a
  field that is \<^verbatim>\<open>None\<close> as \<^verbatim>\<open>null\<close>, and the dataclasses inside a list converted in turn.
\<close>

definition image_to_dict :: "CollectionImage \<Rightarrow> json" where
  "image_to_dict img =
     JObj [(''filename'', JStr (filename img)),
           (''title'', optional_to_json (CollectionImage.title img)),
           (''artist'', optional_to_json (artist img)),
           (''year'', optional_to_json (year img)),
           (''technique'', optional_to_json (technique img)),
           (''conservation_site'', optional_to_json (conservation_site img)),
           (''production_site'', optional_to_json (production_site img)),
           (''dimensions'', optional_to_json (dimensions img))]"

definition to_dict :: "Collection \<Rightarrow> json" where
  "to_dict c =
     JObj [(''work_directory'', JStr (work_directory c)),
           (''title'', optional_to_json (Collection.title c)),
           (''collection'', JArr (map image_to_dict (collection c)))]"

text \<open>
  \<^verbatim>\<open>CollectionImage.from_dict\<close>. A field with a default that the object lacks takes the
  default; \<^verbatim>\<open>filename\<close> has none, and its absence is a \<^verbatim>\<open>KeyError\<close>. Items the class
  does not declare are ignored. The records hold strings only, so a document that
  carries another kind of value in a field is reported as a \<^verbatim>\<open>TypeError\<close>.
\<close>

definition optional_field :: "(string \<times> json) list \<Rightarrow> string \<Rightarrow> error + string option" where
  "optional_field kvs k =
     (case map_of kvs k of
        None \<Rightarrow> Inr None
      | Some JNull \<Rightarrow> Inr None
      | Some (JStr s) \<Rightarrow> Inr (Some s)
      | Some _ \<Rightarrow> Inl TypeError)"

definition from_dict :: "json \<Rightarrow> error + CollectionImage" where
  "from_dict item =
     (case item of
        JObj kvs \<Rightarrow>
          (case map_of kvs ''filename'' of
             None \<Rightarrow> Inl KeyError
           | Some (JStr name) \<Rightarrow>
               and_then (optional_field kvs ''title'') (\<lambda>t.
               and_then (optional_field kvs ''artist'') (\<lambda>a.
               and_then (optional_field kvs ''year'') (\<lambda>y.
               and_then (optional_field kvs ''technique'') (\<lambda>te.
               and_then (optional_field kvs ''conservation_site'') (\<lambda>cs.
               and_then (optional_field kvs ''production_site'') (\<lambda>ps.
               and_then (optional_field kvs ''dimensions'') (\<lambda>d.
               Inr \<lparr>filename = name, CollectionImage.title = t, artist = a, year = y,
                    technique = te, conservation_site = cs, production_site = ps,
                    dimensions = d\<rparr>)))))))
           | Some _ \<Rightarrow> Inl TypeError)
      | _ \<Rightarrow> Inl TypeError)"

text \<open>The comprehension \<^verbatim>\<open>[CollectionImage.from_dict(item) for item in items]\<close>.\<close>

fun from_dict_all :: "json list \<Rightarrow> error + CollectionImage list" where
  "from_dict_all [] = Inr []"
| "from_dict_all (item # items) =
     and_then (from_dict item) (\<lambda>img.
     and_then (from_dict_all items) (\<lambda>imgs. Inr (img # imgs)))"

text \<open>
  Iterating over a JSON value, as the \<^verbatim>\<open>for\<close> of the comprehension does: a list gives its
  elements, an object its keys, a string its characters; nothing else can be iterated.
\<close>

definition iterate :: "json \<Rightarrow> error + json list" where
  "iterate v =
     (case v of
        JArr items \<Rightarrow> Inr items
      | JObj kvs \<Rightarrow> Inr (map (\<lambda>kv. JStr (fst kv)) kvs)
      | JStr s \<Rightarrow> Inr (map (\<lambda>c. JStr [c]) s)
      | _ \<Rightarrow> Inl TypeError)"

text \<open>
  What \<^verbatim>\<open>__load_meta\<close> makes of the parsed document: \<^verbatim>\<open>coll_dict["title"]\<close>, then the
  comprehension over \<^verbatim>\<open>coll_dict["collection"]\<close>, then \<^verbatim>\<open>Collection(path, title, collection)\<close>.
  The item \<^verbatim>\<open>work_directory\<close> of the document is not read. A title that is neither a
  string nor \<^verbatim>\<open>null\<close> has no place in the record and is reported as a \<^verbatim>\<open>TypeError\<close>.
\<close>

definition title_of_json :: "json \<Rightarrow> error + string option" where
  "title_of_json v =
     (case v of
        JNull \<Rightarrow> Inr None
      | JStr t \<Rightarrow> Inr (Some t)
      | _ \<Rightarrow> Inl TypeError)"

definition decode_meta :: "string \<Rightarrow> json \<Rightarrow> error + Collection" where
  "decode_meta path coll_dict =
     (case coll_dict of
        JObj kvs \<Rightarrow>
          (case map_of kvs ''title'' of
             None \<Rightarrow> Inl KeyError
           | Some title_json \<Rightarrow>
               (case map_of kvs ''collection'' of
                  None \<Rightarrow> Inl KeyError
                | Some coll_json \<Rightarrow>
                    and_then (iterate coll_json) (\<lambda>items.
                    and_then (from_dict_all items) (\<lambda>imgs.
                    and_then (title_of_json title_json) (\<lambda>t.
                    Inr \<lparr>work_directory = path, title = t, collection = imgs\<rparr>)))))
      | _ \<Rightarrow> Inl TypeError)"

subsection \<open>\<^verbatim>\<open>json.dumps\<close>\<close>

text \<open>
  The text \<^verbatim>\<open>json.dumps\<close> writes for a document, as the encoder of the standard library
  does with its defaults (\<^verbatim>\<open>ensure_ascii\<close>, no sorting of keys).

  A string is written between double quotes. Backslash, double quote and the control
  characters with a short name are written by \<^verbatim>\<open>ESCAPE_DCT\<close>; every other character
  outside the range from space to tilde is written \<^verbatim>\<open>\u00XX\<close>, with lowercase
  hexadecimal digits. A \<^typ>\<open>char\<close> stands for a code point below 256.
\<close>

text \<open>The hexadecimal digit of a number below 16.\<close>

definition hexdigit :: "nat \<Rightarrow> char" where
  "hexdigit n = ''0123456789abcdef'' ! n"

definition ESCAPE_DCT :: "(char \<times> string) list" where
  "ESCAPE_DCT =
     [(CHR 0x5C, [CHR 0x5C, CHR 0x5C]),
      (CHR 0x22, [CHR 0x5C, CHR 0x22]),
      (CHR 0x08, [CHR 0x5C, CHR ''b'']),
      (CHR 0x0C, [CHR 0x5C, CHR ''f'']),
      (CHR 0x0A, [CHR 0x5C, CHR ''n'']),
      (CHR 0x0D, [CHR 0x5C, CHR ''r'']),
      (CHR 0x09, [CHR 0x5C, CHR ''t''])]"

definition escape_char :: "char \<Rightarrow> string" where
  "escape_char c =
     (case map_of ESCAPE_DCT c of
        Some e \<Rightarrow> e
      | None \<Rightarrow>
          if 32 \<le> (of_char c :: nat) \<and> (of_char c :: nat) \<le> 126 then [c]
          else [CHR 0x5C, CHR ''u'', CHR ''0'', CHR ''0'',
                hexdigit (of_char c div 16), hexdigit (of_char c mod 16)])"

definition encode_basestring_ascii :: "string \<Rightarrow> string" where
  "encode_basestring_ascii s = CHR 0x22 # concat (map escape_char s) @ [CHR 0x22]"

text \<open>
  The layout. With \<^verbatim>\<open>indent=None\<close> the items of a list or dictionary follow one another
  after \<^verbatim>\<open>", "\<close>; with \<^verbatim>\<open>indent=k\<close> each item is on a line of its own, \<open>k\<close> spaces
  deeper than the bracket, after \<^verbatim>\<open>","\<close>. A key and its value are always separated by
  \<^verbatim>\<open>": "\<close>, and an empty list or dictionary is \<^verbatim>\<open>[]\<close> or \<^verbatim>\<open>{}\<close>.
\<close>

definition newline_indent :: "nat option \<Rightarrow> nat \<Rightarrow> string" where
  "newline_indent indent level =
     (case indent of
        None \<Rightarrow> []
      | Some width \<Rightarrow> CHR 0x0A # replicate (width * level) CHR '' '')"

definition item_separator :: "nat option \<Rightarrow> string" where
  "item_separator indent = (if indent = None then '', '' else '','')"

definition separator :: "nat option \<Rightarrow> nat \<Rightarrow> string" where
  "separator indent level = item_separator indent @ newline_indent indent level"

fun join :: "string \<Rightarrow> string list \<Rightarrow> string" where
  "join sep [] = []"
| "join sep [x] = x"
| "join sep (x # y # ys) = x @ sep @ join sep (y # ys)"

fun iterencode :: "nat option \<Rightarrow> nat \<Rightarrow> json \<Rightarrow> string" where
  "iterencode indent level JNull = ''null''"
| "iterencode indent level (JBool b) = (if b then ''true'' else ''false'')"
| "iterencode indent level (JNum literal) = literal"
| "iterencode indent level (JStr s) = encode_basestring_ascii s"
| "iterencode indent level (JArr lst) =
     (if lst = [] then ''[]''
      else ''['' @ newline_indent indent (Suc level)
           @ join (separator indent (Suc level))
               (map (iterencode indent (Suc level)) lst)
           @ newline_indent indent level @ '']'')"
| "iterencode indent level (JObj dct) =
     (if dct = [] then ''{}''
      else ''{'' @ newline_indent indent (Suc level)
           @ join (separator indent (Suc level))
               (map (\<lambda>kv. encode_basestring_ascii (fst kv) @ '': ''
                           @ iterencode indent (Suc level) (snd kv)) dct)
           @ newline_indent indent level @ ''}'')"

definition json_dumps :: "nat option \<Rightarrow> json \<Rightarrow> string" where
  "json_dumps indent obj = iterencode indent 0 obj"

subsection \<open>\<^verbatim>\<open>json.loads\<close>\<close>

text \<open>
  The decoder of the standard library: \<^verbatim>\<open>scanstring\<close> for a string after its opening
  quote (strict: no control character inside), \<^verbatim>\<open>NUMBER_RE\<close> for a number,
  \<^verbatim>\<open>scan_once\<close>, \<^verbatim>\<open>JSONArray\<close> and \<^verbatim>\<open>JSONObject\<close> for a value, the items of a list
  and the members of a dictionary. Each of them returns what it read and the text that
  follows, or \<open>None\<close> where the library raises \<^verbatim>\<open>JSONDecodeError\<close>.
\<close>

definition is_whitespace :: "char \<Rightarrow> bool" where
  "is_whitespace c = (c = CHR '' '' \<or> c = CHR 0x09 \<or> c = CHR 0x0A \<or> c = CHR 0x0D)"

definition skip_whitespace :: "string \<Rightarrow> string" where
  "skip_whitespace s = dropWhile is_whitespace s"

text \<open>
  \<^verbatim>\<open>\uXXXX\<close> takes four hexadecimal digits. The strings of the model have the code
  points below 256 only, and an escape for another code point is not read.
\<close>

definition hexval :: "char \<Rightarrow> nat option" where
  "hexval c =
     map_of (zip ''0123456789abcdefABCDEF''
               [0, 1, 2, 3, 4, 5, 6, 7, 8, 9, 10, 11, 12, 13, 14, 15, 10, 11, 12, 13, 14, 15]) c"

definition decode_uXXXX :: "string \<Rightarrow> char option" where
  "decode_uXXXX esc =
     (case map hexval esc of
        [Some a, Some b, Some c, Some d] \<Rightarrow>
          if a = 0 \<and> b = 0 then Some (char_of (16 * c + d)) else None
      | _ \<Rightarrow> None)"

definition BACKSLASH :: "(char \<times> char) list" where
  "BACKSLASH =
     [(CHR 0x22, CHR 0x22), (CHR 0x5C, CHR 0x5C), (CHR ''/'', CHR ''/''),
      (CHR ''b'', CHR 0x08), (CHR ''f'', CHR 0x0C), (CHR ''n'', CHR 0x0A),
      (CHR ''r'', CHR 0x0D), (CHR ''t'', CHR 0x09)]"

definition cons_result :: "'a \<Rightarrow> ('a list \<times> string) option \<Rightarrow> ('a list \<times> string) option" where
  "cons_result x r = (case r of None \<Rightarrow> None | Some (xs, rest) \<Rightarrow> Some (x # xs, rest))"

fun scanstring :: "string \<Rightarrow> (string \<times> string) option" where
  "scanstring [] = None"
| "scanstring (c # s) =
     (if c = CHR 0x22 then Some ([], s)
      else if c = CHR 0x5C then
        (case s of
           [] \<Rightarrow> None
         | esc # s1 \<Rightarrow>
             if esc = CHR ''u'' then
               (case decode_uXXXX (take 4 s1) of
                  None \<Rightarrow> None
                | Some ch \<Rightarrow> cons_result ch (scanstring (drop 4 s1)))
             else
               (case map_of BACKSLASH esc of
                  None \<Rightarrow> None
                | Some ch \<Rightarrow> cons_result ch (scanstring s1)))
      else if (of_char c :: nat) < 32 then None
      else cons_result c (scanstring s))"

text \<open>
  \<^verbatim>\<open>NUMBER_RE\<close>, \<^verbatim>\<open>(-?(?:0|[1-9]\d*))(\.\d+)?([eE][-+]?\d+)?\<close>: the integer part, then
  a fraction and an exponent where they are complete.
\<close>

definition is_digit :: "char \<Rightarrow> bool" where
  "is_digit c = (c \<in> set ''0123456789'')"

definition match_integer :: "string \<Rightarrow> (string \<times> string) option" where
  "match_integer s =
     (let (sign, s1) = (case s of c # r \<Rightarrow> if c = CHR ''-'' then ([c], r) else ([], s) | [] \<Rightarrow> ([], s))
      in case s1 of
           [] \<Rightarrow> None
         | c # r \<Rightarrow>
             if c = CHR ''0'' then Some (sign @ [c], r)
             else if is_digit c then Some (sign @ c # takeWhile is_digit r, dropWhile is_digit r)
             else None)"

definition match_digits1 :: "string \<Rightarrow> (string \<times> string) option" where
  "match_digits1 s =
     (case s of
        d # r \<Rightarrow> if is_digit d then Some (d # takeWhile is_digit r, dropWhile is_digit r) else None
      | [] \<Rightarrow> None)"

definition match_frac :: "string \<Rightarrow> string \<times> string" where
  "match_frac s =
     (case s of
        c # r \<Rightarrow>
          if c = CHR ''.'' then
            (case match_digits1 r of None \<Rightarrow> ([], s) | Some (ds, rest) \<Rightarrow> (c # ds, rest))
          else ([], s)
      | [] \<Rightarrow> ([], s))"

definition match_exp :: "string \<Rightarrow> string \<times> string" where
  "match_exp s =
     (case s of
        e # r \<Rightarrow>
          if e = CHR ''e'' \<or> e = CHR ''E'' then
            (case r of
               sg # r1 \<Rightarrow>
                 if sg = CHR ''-'' \<or> sg = CHR ''+'' then
                   (case match_digits1 r1 of
                      None \<Rightarrow> ([], s)
                    | Some (ds, rest) \<Rightarrow> (e # sg # ds, rest))
                 else
                   (case match_digits1 r of
                      None \<Rightarrow> ([], s)
                    | Some (ds, rest) \<Rightarrow> (e # ds, rest))
             | [] \<Rightarrow> ([], s))
          else ([], s)
      | [] \<Rightarrow> ([], s))"

definition match_number :: "string \<Rightarrow> (string \<times> string) option" where
  "match_number s =
     (case match_integer s of
        None \<Rightarrow> None
      | Some (integer, s1) \<Rightarrow>
          (let (frac, s2) = match_frac s1; (exp, s3) = match_exp s2
           in Some (integer @ frac @ exp, s3)))"

text \<open>
  \<^verbatim>\<open>dict(pairs)\<close>: a key read twice keeps its first place and takes the last value.
\<close>

definition dict_of :: "(string \<times> json) list \<Rightarrow> (string \<times> json) list" where
  "dict_of pairs = foldl (\<lambda>d kv. AList.update (fst kv) (snd kv) d) [] pairs"

text \<open>
  The three readers call one another, so they take the number of nested calls they
  may still make as their first argument, and return \<open>None\<close> when it is used up. A reader
  calls another only after a character was read or for the value that a list starts
  with, so a text of \<open>k\<close> characters nests fewer than \<open>2 * k + 2\<close> calls, which is what
  \<open>json_loads\<close> below allows.
\<close>

fun scan_once :: "nat \<Rightarrow> string \<Rightarrow> (json \<times> string) option"
  and JSONArray :: "nat \<Rightarrow> string \<Rightarrow> (json list \<times> string) option"
  and JSONObject :: "nat \<Rightarrow> string \<Rightarrow> ((string \<times> json) list \<times> string) option"
where
  "scan_once 0 s = None"
| "scan_once (Suc n) s =
     (case s of
        [] \<Rightarrow> None
      | nextchar # r \<Rightarrow>
          if nextchar = CHR 0x22 then
            (case scanstring r of None \<Rightarrow> None | Some (str, rest) \<Rightarrow> Some (JStr str, rest))
          else if nextchar = CHR ''{'' then
            (case skip_whitespace r of
               [] \<Rightarrow> None
             | c # r1 \<Rightarrow>
                 if c = CHR ''}'' then Some (JObj [], r1)
                 else (case JSONObject n (c # r1) of
                         None \<Rightarrow> None
                       | Some (pairs, rest) \<Rightarrow> Some (JObj (dict_of pairs), rest)))
          else if nextchar = CHR ''['' then
            (case skip_whitespace r of
               [] \<Rightarrow> None
             | c # r1 \<Rightarrow>
                 if c = CHR '']'' then Some (JArr [], r1)
                 else (case JSONArray n (c # r1) of
                         None \<Rightarrow> None
                       | Some (values, rest) \<Rightarrow> Some (JArr values, rest)))
          else if prefix ''null'' s then Some (JNull, drop 4 s)
          else if prefix ''true'' s then Some (JBool True, drop 4 s)
          else if prefix ''false'' s then Some (JBool False, drop 5 s)
          else
            (case match_number s of
               Some (literal, rest) \<Rightarrow> Some (JNum literal, rest)
             | None \<Rightarrow>
                 if prefix ''NaN'' s then Some (JNum ''NaN'', drop 3 s)
                 else if prefix ''Infinity'' s then Some (JNum ''Infinity'', drop 8 s)
                 else if prefix ''-Infinity'' s then Some (JNum ''-Infinity'', drop 9 s)
                 else None))"
| "JSONArray 0 s = None"
| "JSONArray (Suc n) s =
     (case scan_once n s of
        None \<Rightarrow> None
      | Some (v, r) \<Rightarrow>
          (case skip_whitespace r of
             [] \<Rightarrow> None
           | nextchar # r1 \<Rightarrow>
               if nextchar = CHR '']'' then Some ([v], r1)
               else if nextchar = CHR '','' then cons_result v (JSONArray n (skip_whitespace r1))
               else None))"
| "JSONObject 0 s = None"
| "JSONObject (Suc n) s =
     (case s of
        [] \<Rightarrow> None
      | nextchar # r \<Rightarrow>
          if nextchar \<noteq> CHR 0x22 then None
          else
            (case scanstring r of
               None \<Rightarrow> None
             | Some (key, r1) \<Rightarrow>
                 (case skip_whitespace r1 of
                    [] \<Rightarrow> None
                  | colon # r2 \<Rightarrow>
                      if colon \<noteq> CHR '':'' then None
                      else
                        (case scan_once n (skip_whitespace r2) of
                           None \<Rightarrow> None
                         | Some (v, r3) \<Rightarrow>
                             (case skip_whitespace r3 of
                                [] \<Rightarrow> None
                              | c # r4 \<Rightarrow>
                                  if c = CHR ''}'' then Some ([(key, v)], r4)
                                  else if c = CHR '','' then
                                    cons_result (key, v) (JSONObject n (skip_whitespace r4))
                                  else None)))))"

text \<open>
  \<^verbatim>\<open>json.loads\<close>: white space, one value, white space, and nothing more.
\<close>

definition json_loads :: "string \<Rightarrow> error + json" where
  "json_loads s =
     (case scan_once (2 * length s + 2) (skip_whitespace s) of
        None \<Rightarrow> Inl JSONDecodeError
      | Some (obj, rest) \<Rightarrow>
          if skip_whitespace rest = [] then Inr obj else Inl JSONDecodeError)"

subsection \<open>Documents without numbers\<close>

text \<open>
  The documents of the meta file hold strings, \<^verbatim>\<open>null\<close>, lists and dictionaries with
  distinct keys. \<open>textual\<close> says so of a document, and \<open>fuel_for\<close> counts the nested
  calls that reading it back takes.
\<close>

fun textual :: "json \<Rightarrow> bool" where
  "textual (JNum literal) = False"
| "textual (JArr lst) = list_all textual lst"
| "textual (JObj dct) = (distinct (map fst dct) \<and> list_all (\<lambda>kv. textual (snd kv)) dct)"
| "textual v = True"

fun fuel_for :: "json \<Rightarrow> nat" where
  "fuel_for (JArr lst) = Suc (sum_list (map (\<lambda>v. Suc (fuel_for v)) lst))"
| "fuel_for (JObj dct) = Suc (sum_list (map (\<lambda>kv. Suc (fuel_for (snd kv))) dct))"
| "fuel_for v = 1"

subsection \<open>The file system\<close>

text \<open>
  A file system maps the path of each directory to its listing: the entries in the
  order \<^verbatim>\<open>os.listdir\<close> enumerates them, each a regular file with its content or a
  sub-directory. A directory is known by the path string the program uses for it, and
  \<^verbatim>\<open>os.path.join(d, name)\<close> is the entry \<open>name\<close> of the directory \<open>d\<close>. Permissions,
  links and full disks are not modelled. The content of a file is a string.
\<close>

datatype entry = File string | Directory

type_synonym listing = "(string \<times> entry) list"

type_synonym filesystem = "string \<Rightarrow> listing option"

definition listdir :: "filesystem \<Rightarrow> string \<Rightarrow> error + string list" where
  "listdir fs path =
     (case fs path of
        None \<Rightarrow> Inl FileNotFoundError
      | Some entries \<Rightarrow> Inr (map fst entries))"

text \<open>\<^verbatim>\<open>open(os.path.join(d, name), "r").read()\<close>.\<close>

definition read_file :: "filesystem \<Rightarrow> string \<Rightarrow> string \<Rightarrow> error + string" where
  "read_file fs d name =
     (case fs d of
        None \<Rightarrow> Inl FileNotFoundError
      | Some entries \<Rightarrow>
          (case map_of entries name of
             None \<Rightarrow> Inl FileNotFoundError
           | Some Directory \<Rightarrow> Inl IsADirectoryError
           | Some (File content) \<Rightarrow> Inr content))"

text \<open>
  \<^verbatim>\<open>open(os.path.join(d, name), "w")\<close> followed by one \<^verbatim>\<open>write\<close>: an existing file keeps
  its place in the listing and takes the new content, a new file is listed last.
\<close>

definition write_file ::
  "filesystem \<Rightarrow> string \<Rightarrow> string \<Rightarrow> string \<Rightarrow> (error + unit) \<times> filesystem" where
  "write_file fs d name content =
     (case fs d of
        None \<Rightarrow> (Inl FileNotFoundError, fs)
      | Some entries \<Rightarrow>
          (case map_of entries name of
             Some Directory \<Rightarrow> (Inl IsADirectoryError, fs)
           | _ \<Rightarrow> (Inr (), fs(d \<mapsto> AList.update name (File content) entries))))"

text \<open>
  \<^verbatim>\<open>shutil.copyfile(src, os.path.join(d, name))\<close>: \<^verbatim>\<open>SameFileError\<close> when source and
  destination are one existing entry, else the source is read and the destination
  written.
\<close>

definition copyfile ::
  "filesystem \<Rightarrow> string \<Rightarrow> string \<Rightarrow> string \<Rightarrow> (error + unit) \<times> filesystem" where
  "copyfile fs src d name =
     (let (src_dir, src_name) = os_path_split src in
      if src_dir = d \<and> src_name = name
         \<and> (case fs d of None \<Rightarrow> False | Some entries \<Rightarrow> map_of entries name \<noteq> None)
      then (Inl SameFileError, fs)
      else (case read_file fs src_dir src_name of
              Inl e \<Rightarrow> (Inl e, fs)
            | Inr content \<Rightarrow> write_file fs d name content))"

subsection \<open>\<^verbatim>\<open>CollectionManager\<close>\<close>

text \<open>\<^verbatim>\<open>__load_meta\<close>: read the meta file, parse it, build the collection.\<close>

definition load_meta :: "filesystem \<Rightarrow> string \<Rightarrow> error + Collection" where
  "load_meta fs path =
     (case read_file fs path META_FILENAME of
        Inl e \<Rightarrow> Inl e
      | Inr coll_json \<Rightarrow>
          (case json_loads coll_json of
             Inl e \<Rightarrow> Inl e
           | Inr coll_dict \<Rightarrow> decode_meta path coll_dict))"

text \<open>
  The loop of \<^verbatim>\<open>__check_files\<close> over the names \<^verbatim>\<open>os.listdir\<close> returned; the first argument
  is \<^verbatim>\<open>collection.collection\<close>, which the loop appends to.
\<close>

fun check_files_loop :: "CollectionImage list \<Rightarrow> string list \<Rightarrow> CollectionImage list" where
  "check_files_loop coll [] = coll"
| "check_files_loop coll (name # names) =
     (if endswith (lower name) AUTHORIZED_IMAGE_FORMATS then
        (if \<not> contains coll (new_image name)
         then check_files_loop (coll @ [new_image name]) names
         else check_files_loop coll names)
      else check_files_loop coll names)"

text \<open>
  \<^verbatim>\<open>__check_files\<close>. Its argument is a \<^typ>\<open>Collection\<close> by its type, so the
  \<^verbatim>\<open>isinstance\<close> check passes.
\<close>

definition check_files :: "filesystem \<Rightarrow> Collection \<Rightarrow> error + Collection" where
  "check_files fs c =
     (case listdir fs (work_directory c) of
        Inl e \<Rightarrow> Inl e
      | Inr names \<Rightarrow> Inr (c\<lparr>collection := check_files_loop (collection c) names\<rparr>))"

text \<open>
  \<^verbatim>\<open>to_json\<close> of \<^verbatim>\<open>dataclass_json\<close>: \<^verbatim>\<open>json.dumps\<close> of \<^verbatim>\<open>to_dict\<close>, without indentation.
\<close>

definition to_json :: "Collection \<Rightarrow> string" where
  "to_json c = json_dumps None (to_dict c)"

text \<open>
  \<^verbatim>\<open>__write_meta\<close>: the meta file is opened for writing, which empties or creates it;
  then \<^verbatim>\<open>to_json\<close> is parsed back, and the document is written with an indentation of
  four spaces.
\<close>

definition write_meta :: "filesystem \<Rightarrow> Collection \<Rightarrow> (error + unit) \<times> filesystem" where
  "write_meta fs c =
     (case write_file fs (work_directory c) META_FILENAME [] of
        (Inl e, fs1) \<Rightarrow> (Inl e, fs1)
      | (Inr _, fs1) \<Rightarrow>
          (case json_loads (to_json c) of
             Inl e \<Rightarrow> (Inl e, fs1)
           | Inr json_data \<Rightarrow>
               write_file fs1 (work_directory c) META_FILENAME
                 (json_dumps (Some 4) json_data)))"

text \<open>\<^verbatim>\<open>__create_meta\<close>: \<^verbatim>\<open>open(path, "a").close()\<close> creates an empty file if there is none.\<close>

definition create_meta :: "filesystem \<Rightarrow> string \<Rightarrow> (error + unit) \<times> filesystem" where
  "create_meta fs path =
     (case fs path of
        None \<Rightarrow> (Inl FileNotFoundError, fs)
      | Some entries \<Rightarrow>
          (case map_of entries META_FILENAME of
             None \<Rightarrow> (Inr (), fs(path \<mapsto> entries @ [(META_FILENAME, File [])]))
           | Some Directory \<Rightarrow> (Inl IsADirectoryError, fs)
           | Some (File _) \<Rightarrow> (Inr (), fs)))"

definition save :: "filesystem \<Rightarrow> Collection \<Rightarrow> (error + unit) \<times> filesystem" where
  "save fs c = write_meta fs c"

text \<open>
  \<^verbatim>\<open>load\<close>. \<^verbatim>\<open>os.listdir(path)\<close> is called twice, for the emptiness check and for the
  search of the meta file; nothing is written between the two calls, and the model
  lists once.
\<close>

definition load :: "filesystem \<Rightarrow> string \<Rightarrow> (error + Collection) \<times> filesystem" where
  "load fs path =
     (case listdir fs path of
        Inl e \<Rightarrow> (Inl e, fs)
      | Inr names \<Rightarrow>
          if names = [] then (Inl FileNotFoundError, fs)
          else
            (case (if META_FILENAME \<in> set names
                   then (load_meta fs path, fs)
                   else (case create_meta fs path of
                           (Inl e, fs1) \<Rightarrow> (Inl e, fs1)
                         | (Inr _, fs1) \<Rightarrow>
                             (Inr \<lparr>work_directory = path,
                                   title = Some ''Untitled Collection'',
                                   collection = []\<rparr>, fs1))) of
               (Inl e, fs1) \<Rightarrow> (Inl e, fs1)
             | (Inr c, fs1) \<Rightarrow>
                 (case check_files fs1 c of
                    Inl e \<Rightarrow> (Inl e, fs1)
                  | Inr checked \<Rightarrow>
                      (case write_meta fs1 checked of
                         (Inl e, fs2) \<Rightarrow> (Inl e, fs2)
                       | (Inr _, fs2) \<Rightarrow> (Inr checked, fs2)))))"

subsection \<open>\<^verbatim>\<open>Collection\<close>\<close>

text \<open>\<^verbatim>\<open>set_collection\<close>: replace the list, then save.\<close>

definition set_collection ::
  "filesystem \<Rightarrow> Collection \<Rightarrow> CollectionImage list
     \<Rightarrow> (error + unit) \<times> filesystem \<times> Collection" where
  "set_collection fs self coll_list =
     (let self1 = self\<lparr>collection := coll_list\<rparr> in
      (case save fs self1 of (r, fs1) \<Rightarrow> (r, fs1, self1)))"

text \<open>
  The cleaning of \<^verbatim>\<open>add_image\<close>: \<^verbatim>\<open>str\<close> of a bytes path reads \<^verbatim>\<open>b'...'\<close>, and the slice
  \<^verbatim>\<open>source[2:-1]\<close> takes the wrapping off.
\<close>

definition clean_source :: "string \<Rightarrow> string" where
  "clean_source source =
     (if startswith source [CHR ''b'', CHR 0x27] \<and> endswith source [[CHR 0x27]]
      then butlast (drop 2 source)
      else source)"

text \<open>
  \<^verbatim>\<open>add_image\<close>: the format check, the copy into the work directory, the append, the save.
  A \<^verbatim>\<open>SameFileError\<close> of the copy is raised again as it is.
\<close>

definition add_image ::
  "filesystem \<Rightarrow> Collection \<Rightarrow> string
     \<Rightarrow> (error + CollectionImage) \<times> filesystem \<times> Collection" where
  "add_image fs self source0 =
     (let source = clean_source source0;
          file_name = basename source
      in if \<not> endswith (lower file_name) AUTHORIZED_IMAGE_FORMATS
         then (Inl ValueError, fs, self)
         else
           (case copyfile fs source (work_directory self) file_name of
              (Inl e, fs1) \<Rightarrow> (Inl e, fs1, self)
            | (Inr _, fs1) \<Rightarrow>
                (let self1 = self\<lparr>collection := collection self @ [new_image file_name]\<rparr> in
                 (case save fs1 self1 of
                    (Inl e, fs2) \<Rightarrow> (Inl e, fs2, self1)
                  | (Inr _, fs2) \<Rightarrow> (Inr (new_image file_name), fs2, self1)))))"

subsection \<open>Example images, collections and directories\<close>

definition monet :: CollectionImage where
  "monet =
     \<lparr>filename = ''monet.jpg'', CollectionImage.title = Some ''Water Lilies'',
      artist = Some ''Monet'', year = Some ''1919'', technique = Some ''Oil on canvas'',
      conservation_site = Some ''MoMA'', production_site = None,
      dimensions = Some ''100x100cm''\<rparr>"

text \<open>A work without a known artist, recorded with the place it was made.\<close>

definition vase :: CollectionImage where
  "vase =
     \<lparr>filename = ''vase.png'', CollectionImage.title = Some ''Vase'',
      artist = None, year = Some ''500 BC'', technique = Some ''Clay'',
      conservation_site = Some ''Louvre'', production_site = Some ''Athens'',
      dimensions = Some ''40cm''\<rparr>"

text \<open>A work whose conservation site alone is not recorded.\<close>

definition fresco :: CollectionImage where
  "fresco =
     \<lparr>filename = ''fresco.tiff'', CollectionImage.title = Some ''Fresco'',
      artist = Some ''Giotto'', year = Some ''1305'', technique = Some ''Fresco'',
      conservation_site = None, production_site = Some ''Padua'',
      dimensions = Some ''200x185cm''\<rparr>"

text \<open>A collection in \<^verbatim>\<open>/coll\<close> that knows one image and its title.\<close>

definition studies :: Collection where
  "studies =
     \<lparr>work_directory = ''/coll'', title = Some ''Studies'',
      collection = [(new_image ''art.png'')\<lparr>CollectionImage.title := Some ''Study''\<rparr>]\<rparr>"

text \<open>
  A disk with that collection saved in \<^verbatim>\<open>/coll\<close>, two files to drop in \<^verbatim>\<open>/tmp\<close>, and an
  empty directory.
\<close>

definition disk :: filesystem where
  "disk =
     [''/coll'' \<mapsto> [(''art.png'', File ''old''),
                   (''.collection'', File (json_dumps (Some 4) (to_dict studies)))],
      ''/tmp'' \<mapsto> [(''art.png'', File ''new''),
                  (''doc.pdf'', File ''pdf'')],
      ''/empty'' \<mapsto> []]"

text \<open>A directory that lists \<^verbatim>\<open>b.png\<close> before \<^verbatim>\<open>a.png\<close>, and has no meta file yet.\<close>

definition unsorted_disk :: filesystem where
  "unsorted_disk =
     [''/gallery'' \<mapsto> [(''b.png'', File ''B''),
                      (''notes.txt'', File ''todo''),
                      (''a.png'', File ''A'')]]"

text \<open>A directory with a sub-directory whose name ends like an image's.\<close>

definition nested_disk :: filesystem where
  "nested_disk =
     [''/gallery'' \<mapsto> [(''scans.jpg'', Directory),
                      (''photo.JPG'', File ''P''),
                      (''notes.txt'', File ''todo'')]]"

definition gallery :: Collection where
  "gallery = \<lparr>work_directory = ''/gallery'', title = Some ''Untitled Collection'',
              collection = []\<rparr>"

section \<open>Properties\<close>

subsection \<open>Sequencing\<close>

lemma and_then_Inr: "and_then (Inr v) f = f v"
  by (simp add: and_then_def)

lemma and_then_eq_Inl:
  "and_then r f = Inl e \<longleftrightarrow> r = Inl e \<or> (\<exists>v. r = Inr v \<and> f v = Inl e)"
  by (cases r) (simp_all add: and_then_def)

lemma and_then_eq_Inr:
  "and_then r f = Inr w \<longleftrightarrow> (\<exists>v. r = Inr v \<and> f v = Inr w)"
  by (cases r) (simp_all add: and_then_def)

subsection \<open>The reference string\<close>

lemma plus_str_Some: "plus_str (Some x) s = Inr (x @ s)"
  by (simp add: plus_str_def)

text \<open>
  C7, as the code has it. With title, year, technique, dimensions and conservation
  site set, \<^const>\<open>to_reference\<close> joins with \<^verbatim>\<open>", "\<close>: the artist, when it is a non-empty
  string, then the title, then the production site, when the artist is \<^verbatim>\<open>None\<close> or empty,
  then the year, the technique, the dimensions and the conservation site. The
  production site comes after the title, not before it.
\<close>

theorem to_reference_order:
  assumes "CollectionImage.title self = Some t" and "year self = Some y"
    and "technique self = Some te" and "dimensions self = Some d"
    and "conservation_site self = Some cs"
  shows "(artist self = Some a \<and> a \<noteq> [] \<longrightarrow>
           to_reference self =
             Inr (a @ '', '' @ t @ '', '' @ y @ '', '' @ te @ '', '' @ d @ '', '' @ cs))
       \<and> (\<not> truthy (artist self) \<and> production_site self = Some p \<longrightarrow>
           to_reference self =
             Inr (t @ '', '' @ p @ '', '' @ y @ '', '' @ te @ '', '' @ d @ '', '' @ cs))"
  using assms
  by (simp add: to_reference_def truthy_def and_then_Inr plus_str_Some format_value_def)

theorem to_reference_order_witness:
  "to_reference monet = Inr ''Monet, Water Lilies, 1919, Oil on canvas, 100x100cm, MoMA''
   \<and> to_reference vase = Inr ''Vase, Athens, 500 BC, Clay, 40cm, Louvre''"
  using to_reference_order [of monet "''Water Lilies''" "''1919''" "''Oil on canvas''"
      "''100x100cm''" "''MoMA''" "''Monet''" "''''"]
    to_reference_order [of vase "''Vase''" "''500 BC''" "''Clay''" "''40cm''" "''Louvre''"
      "''''" "''Athens''"]
  by (simp add: monet_def vase_def truthy_def)

text \<open>
  C7 as it is written puts the production site of a work without artist before the
  title; the code puts it after.
\<close>

theorem to_reference_production_site_counterexample:
  "to_reference vase = Inr ''Vase, Athens, 500 BC, Clay, 40cm, Louvre''
   \<and> to_reference vase \<noteq> Inr ''Athens, Vase, 500 BC, Clay, 40cm, Louvre''"
  by (simp add: vase_def to_reference_def truthy_def and_then_def plus_str_def
      format_value_def)

text \<open>
  C10. \<^const>\<open>to_reference\<close> raises \<^verbatim>\<open>TypeError\<close> on every image whose title, year,
  technique or dimensions is \<^verbatim>\<open>None\<close>, and on every image whose artist and production
  site are both \<^verbatim>\<open>None\<close>. On an image that lacks the conservation site only, it returns
  a string that ends with the text \<^verbatim>\<open>None\<close>.
\<close>

theorem to_reference_partial:
  "((CollectionImage.title self = None \<or> year self = None \<or> technique self = None
       \<or> dimensions self = None) \<longrightarrow> to_reference self = Inl TypeError)
   \<and> (artist self = None \<and> production_site self = None \<longrightarrow>
        to_reference self = Inl TypeError)
   \<and> (CollectionImage.title self \<noteq> None \<and> artist self \<noteq> None \<and> year self \<noteq> None
        \<and> technique self \<noteq> None \<and> production_site self \<noteq> None
        \<and> dimensions self \<noteq> None \<and> conservation_site self = None \<longrightarrow>
        (\<exists>s. to_reference self = Inr (s @ ''None'')))"
  by (auto simp add: to_reference_def truthy_def and_then_def plus_str_def
      format_value_def split: option.splits sum.splits)

theorem to_reference_partial_witness:
  "to_reference (new_image ''a.png'') = Inl TypeError
   \<and> to_reference (monet\<lparr>dimensions := None\<rparr>) = Inl TypeError
   \<and> to_reference (monet\<lparr>artist := None\<rparr>) = Inl TypeError
   \<and> (\<exists>s. to_reference fresco = Inr (s @ ''None''))"
  using to_reference_partial [of "new_image ''a.png''"]
    to_reference_partial [of "monet\<lparr>dimensions := None\<rparr>"]
    to_reference_partial [of "monet\<lparr>artist := None\<rparr>"]
    to_reference_partial [of fresco]
  by (simp add: new_image_def monet_def fresco_def)

subsection \<open>Reading back what \<^verbatim>\<open>json.dumps\<close> wrote\<close>

lemma hexval_hexdigit_all: "\<forall>n \<in> set [0 ..< 16]. hexval (hexdigit n) = Some n"
  by code_simp

lemma hexval_hexdigit: "n < 16 \<Longrightarrow> hexval (hexdigit n) = Some n"
  using hexval_hexdigit_all by simp

lemma decode_uXXXX_hex:
  assumes "n < 256"
  shows "decode_uXXXX [CHR ''0'', CHR ''0'', hexdigit (n div 16), hexdigit (n mod 16)]
           = Some (char_of n)"
proof -
  have "n div 16 < 16" "n mod 16 < 16"
    using assms by simp_all
  then have "hexval (hexdigit (n div 16)) = Some (n div 16)"
    and "hexval (hexdigit (n mod 16)) = Some (n mod 16)"
    by (simp_all add: hexval_hexdigit)
  moreover have "hexval CHR ''0'' = Some 0"
    by (simp add: hexval_def)
  ultimately show ?thesis
    by (simp add: decode_uXXXX_def)
qed

lemma scanstring_special:
  "c \<in> fst ` set ESCAPE_DCT \<Longrightarrow>
   scanstring (escape_char c @ r) = cons_result c (scanstring r)"
  by (auto simp add: ESCAPE_DCT_def escape_char_def BACKSLASH_def)

lemma scanstring_escape_char:
  "scanstring (escape_char c @ r) = cons_result c (scanstring r)"
proof (cases "c \<in> fst ` set ESCAPE_DCT")
  case True
  then show ?thesis by (rule scanstring_special)
next
  case False
  then have none: "map_of ESCAPE_DCT c = None"
    by (simp add: map_of_eq_None_iff)
  from False have ne: "c \<noteq> CHR 0x22" "c \<noteq> CHR 0x5C"
    by (auto simp add: ESCAPE_DCT_def)
  show ?thesis
  proof (cases "32 \<le> (of_char c :: nat) \<and> (of_char c :: nat) \<le> 126")
    case True
    with none ne show ?thesis
      by (simp add: escape_char_def)
  next
    case False
    have "(of_char c :: nat) < 256"
      by simp
    then have "decode_uXXXX [CHR ''0'', CHR ''0'', hexdigit (of_char c div 16),
                 hexdigit (of_char c mod 16)] = Some c"
      using decode_uXXXX_hex [of "of_char c"] by simp
    moreover have "escape_char c = [CHR 0x5C, CHR ''u'', CHR ''0'', CHR ''0'',
                 hexdigit (of_char c div 16), hexdigit (of_char c mod 16)]"
      using none False by (simp add: escape_char_def)
    ultimately show ?thesis
      by simp
  qed
qed

lemma scanstring_escaped:
  "scanstring (concat (map escape_char s) @ CHR 0x22 # r) = Some (s, r)"
  by (induction s) (simp_all add: scanstring_escape_char cons_result_def)

lemma scanstring_encoded:
  "encode_basestring_ascii s @ r = CHR 0x22 # t \<Longrightarrow> scanstring t = Some (s, r)"
  by (auto simp add: encode_basestring_ascii_def scanstring_escaped)

lemma skip_whitespace_Cons:
  "skip_whitespace (c # s) = (if is_whitespace c then skip_whitespace s else c # s)"
  by (simp add: skip_whitespace_def)

lemma skip_whitespace_spaces:
  "skip_whitespace (replicate k CHR '' '' @ s) = skip_whitespace s"
  by (induction k) (simp_all add: skip_whitespace_def is_whitespace_def)

lemma skip_whitespace_newline_indent:
  "skip_whitespace (newline_indent indent level @ s) = skip_whitespace s"
  by (cases indent)
    (simp_all add: newline_indent_def skip_whitespace_Cons is_whitespace_def
      skip_whitespace_spaces)

lemma separator_Cons: "separator indent level = CHR '','' # tl (separator indent level)"
  by (simp add: separator_def item_separator_def)

lemma skip_whitespace_tl_separator:
  "skip_whitespace (tl (separator indent level) @ s) = skip_whitespace s"
  by (cases indent)
    (simp_all add: separator_def item_separator_def skip_whitespace_Cons is_whitespace_def
      skip_whitespace_newline_indent)

lemma separator_append:
  "separator indent level @ t = CHR '','' # tl (separator indent level) @ t"
  using separator_Cons [of indent level] by (metis append_Cons)

lemma iterencode_head:
  "textual v \<Longrightarrow>
   \<exists>c t. iterencode indent level v = c # t
     \<and> c \<in> set [CHR 0x22, CHR ''['', CHR ''{'', CHR ''n'', CHR ''t'', CHR ''f'']"
  by (cases v) (auto simp add: encode_basestring_ascii_def)

lemma join_Cons:
  "join sep (x # xs) = x @ (if xs = [] then [] else sep @ join sep xs)"
  by (cases xs) simp_all

lemma skip_whitespace_value:
  assumes "textual v"
  shows "skip_whitespace (iterencode indent level v @ t) = iterencode indent level v @ t"
proof -
  from iterencode_head [OF assms, of indent level] obtain c u
    where "iterencode indent level v = c # u"
      and "c \<in> set [CHR 0x22, CHR ''['', CHR ''{'', CHR ''n'', CHR ''t'', CHR ''f'']"
    by blast
  then show ?thesis
    by (auto simp add: skip_whitespace_Cons is_whitespace_def)
qed

lemma dict_of_distinct_aux:
  "distinct (map fst (acc @ pairs)) \<Longrightarrow>
   foldl (\<lambda>d kv. AList.update (fst kv) (snd kv) d) acc pairs = acc @ pairs"
proof (induction pairs arbitrary: acc)
  case Nil
  show ?case by simp
next
  case (Cons kv pairs)
  from Cons.prems have "fst kv \<notin> fst ` set acc"
    by auto
  then have "AList.update (fst kv) (snd kv) acc = acc @ [kv]"
    by (induction acc) auto
  with Cons.IH [of "acc @ [kv]"] Cons.prems show ?case
    by simp
qed

lemma dict_of_distinct: "distinct (map fst pairs) \<Longrightarrow> dict_of pairs = pairs"
  using dict_of_distinct_aux [of "[]" pairs] by (simp add: dict_of_def)

lemma JSONArray_items:
  assumes "lst \<noteq> []"
    and "\<And>v n rest. v \<in> set lst \<Longrightarrow> fuel_for v \<le> n \<Longrightarrow>
           scan_once n (iterencode indent inner v @ rest) = Some (v, rest)"
    and "\<And>v. v \<in> set lst \<Longrightarrow> textual v"
    and "sum_list (map (\<lambda>v. Suc (fuel_for v)) lst) \<le> n"
  shows "JSONArray n
           (join (separator indent inner) (map (iterencode indent inner) lst)
            @ newline_indent indent outer @ CHR '']'' # rest)
         = Some (lst, rest)"
  using assms
proof (induction lst arbitrary: n rule: list_nonempty_induct)
  case (single v)
  from single.prems(3) obtain m where n: "n = Suc m" and fuel: "fuel_for v \<le> m"
    by (cases n) simp_all
  have "scan_once m (iterencode indent inner v @ newline_indent indent outer @ CHR '']'' # rest)
          = Some (v, newline_indent indent outer @ CHR '']'' # rest)"
    using single.prems(1) fuel by simp
  then show ?case
    by (simp add: n skip_whitespace_newline_indent skip_whitespace_Cons is_whitespace_def)
next
  case (cons v lst)
  let ?tail = "join (separator indent inner) (map (iterencode indent inner) lst)
               @ newline_indent indent outer @ CHR '']'' # rest"
  from cons.prems(3) obtain m where n: "n = Suc m" and fuel: "fuel_for v \<le> m"
    and fuels: "sum_list (map (\<lambda>v. Suc (fuel_for v)) lst) \<le> m"
    by (cases n) simp_all
  have first: "scan_once m (iterencode indent inner v @ CHR '','' # tl (separator indent inner) @ ?tail)
          = Some (v, CHR '','' # tl (separator indent inner) @ ?tail)"
    using cons.prems(1) fuel by simp
  obtain w ws where lst: "lst = w # ws"
    using cons.hyps by (cases lst) simp_all
  have "textual w"
    using cons.prems(2) lst by simp
  then have skip: "skip_whitespace ?tail = ?tail"
    unfolding lst list.map join_Cons append_assoc by (rule skip_whitespace_value)
  have "JSONArray m ?tail = Some (lst, rest)"
    using cons.prems(1,2) fuels by (intro cons.IH) simp_all
  with first skip show ?case
    using cons.hyps
    by (simp add: n join_Cons separator_append skip_whitespace_tl_separator
        skip_whitespace_Cons is_whitespace_def cons_result_def)
qed

lemma scan_once_empty_array:
  "skip_whitespace r = CHR '']'' # rest \<Longrightarrow> scan_once (Suc m) (CHR ''['' # r) = Some (JArr [], rest)"
  by simp

lemma scan_once_array:
  "skip_whitespace r = c # u \<Longrightarrow> c \<noteq> CHR '']'' \<Longrightarrow> JSONArray m (c # u) = Some (lst, rest)
   \<Longrightarrow> scan_once (Suc m) (CHR ''['' # r) = Some (JArr lst, rest)"
  by simp

lemma scan_once_empty_object:
  "skip_whitespace r = CHR ''}'' # rest \<Longrightarrow> scan_once (Suc m) (CHR ''{'' # r) = Some (JObj [], rest)"
  by simp

lemma scan_once_object:
  "skip_whitespace r = c # u \<Longrightarrow> c \<noteq> CHR ''}'' \<Longrightarrow> JSONObject m (c # u) = Some (pairs, rest)
   \<Longrightarrow> scan_once (Suc m) (CHR ''{'' # r) = Some (JObj (dict_of pairs), rest)"
  by simp

lemma JSONArray_last:
  "scan_once m s = Some (v, r) \<Longrightarrow> skip_whitespace r = CHR '']'' # rest
   \<Longrightarrow> JSONArray (Suc m) s = Some ([v], rest)"
  by simp

lemma JSONArray_next:
  "scan_once m s = Some (v, r) \<Longrightarrow> skip_whitespace r = CHR '','' # r1
   \<Longrightarrow> JSONArray m (skip_whitespace r1) = Some (vs, rest)
   \<Longrightarrow> JSONArray (Suc m) s = Some (v # vs, rest)"
  by (simp add: cons_result_def)

lemma JSONObject_last:
  "scanstring r = Some (key, r1) \<Longrightarrow> skip_whitespace r1 = CHR '':'' # r2
   \<Longrightarrow> scan_once m (skip_whitespace r2) = Some (v, r3)
   \<Longrightarrow> skip_whitespace r3 = CHR ''}'' # rest
   \<Longrightarrow> JSONObject (Suc m) (CHR 0x22 # r) = Some ([(key, v)], rest)"
  by simp

lemma JSONObject_next:
  "scanstring r = Some (key, r1) \<Longrightarrow> skip_whitespace r1 = CHR '':'' # r2
   \<Longrightarrow> scan_once m (skip_whitespace r2) = Some (v, r3)
   \<Longrightarrow> skip_whitespace r3 = CHR '','' # r4
   \<Longrightarrow> JSONObject m (skip_whitespace r4) = Some (pairs, rest)
   \<Longrightarrow> JSONObject (Suc m) (CHR 0x22 # r) = Some ((key, v) # pairs, rest)"
  by (simp add: cons_result_def)

lemma JSONObject_items:
  assumes "dct \<noteq> []"
    and "\<And>kv n rest. kv \<in> set dct \<Longrightarrow> fuel_for (snd kv) \<le> n \<Longrightarrow>
           scan_once n (iterencode indent inner (snd kv) @ rest) = Some (snd kv, rest)"
    and "\<And>kv. kv \<in> set dct \<Longrightarrow> textual (snd kv)"
    and "sum_list (map (\<lambda>kv. Suc (fuel_for (snd kv))) dct) \<le> n"
  shows "JSONObject n
           (join (separator indent inner)
              (map (\<lambda>kv. encode_basestring_ascii (fst kv) @ '': ''
                          @ iterencode indent inner (snd kv)) dct)
            @ newline_indent indent outer @ CHR ''}'' # rest)
         = Some (dct, rest)"
  using assms
proof (induction dct arbitrary: n rule: list_nonempty_induct)
  case (single kv)
  let ?after = "newline_indent indent outer @ CHR ''}'' # rest"
  let ?r = "concat (map escape_char (fst kv)) @ CHR 0x22 # CHR '':'' # CHR '' ''
            # iterencode indent inner (snd kv) @ ?after"
  from single.prems(3) obtain m where n: "n = Suc m" and fuel: "fuel_for (snd kv) \<le> m"
    by (cases n) simp_all
  have shape: "join (separator indent inner)
                (map (\<lambda>kv. encode_basestring_ascii (fst kv) @ '': ''
                            @ iterencode indent inner (snd kv)) [kv]) @ ?after
              = CHR 0x22 # ?r"
    by (simp add: encode_basestring_ascii_def)
  have "textual (snd kv)"
    using single.prems(2) by simp
  then have skip: "skip_whitespace (CHR '' '' # iterencode indent inner (snd kv) @ ?after)
                   = iterencode indent inner (snd kv) @ ?after"
    by (simp add: skip_whitespace_Cons is_whitespace_def skip_whitespace_value)
  have "JSONObject (Suc m) (CHR 0x22 # ?r) = Some ([(fst kv, snd kv)], rest)"
  proof (rule JSONObject_last)
    show "scanstring ?r = Some (fst kv, CHR '':'' # CHR '' '' # iterencode indent inner (snd kv) @ ?after)"
      by (rule scanstring_escaped)
    show "skip_whitespace (CHR '':'' # CHR '' '' # iterencode indent inner (snd kv) @ ?after)
            = CHR '':'' # CHR '' '' # iterencode indent inner (snd kv) @ ?after"
      by (simp add: skip_whitespace_Cons is_whitespace_def)
    show "scan_once m (skip_whitespace (CHR '' '' # iterencode indent inner (snd kv) @ ?after))
            = Some (snd kv, ?after)"
      unfolding skip using single.prems(1) fuel by simp
    show "skip_whitespace ?after = CHR ''}'' # rest"
      by (simp add: skip_whitespace_newline_indent skip_whitespace_Cons is_whitespace_def)
  qed
  then show ?case
    unfolding n shape by simp
next
  case (cons kv dct)
  let ?member = "\<lambda>kv. encode_basestring_ascii (fst kv) @ '': ''
                       @ iterencode indent inner (snd kv)"
  let ?tail = "join (separator indent inner) (map ?member dct)
               @ newline_indent indent outer @ CHR ''}'' # rest"
  let ?after = "CHR '','' # tl (separator indent inner) @ ?tail"
  let ?r = "concat (map escape_char (fst kv)) @ CHR 0x22 # CHR '':'' # CHR '' ''
            # iterencode indent inner (snd kv) @ ?after"
  from cons.prems(3) obtain m where n: "n = Suc m" and fuel: "fuel_for (snd kv) \<le> m"
    and fuels: "sum_list (map (\<lambda>kv. Suc (fuel_for (snd kv))) dct) \<le> m"
    by (cases n) simp_all
  have shape: "join (separator indent inner) (map ?member (kv # dct))
                @ newline_indent indent outer @ CHR ''}'' # rest
              = CHR 0x22 # ?r"
    using cons.hyps by (simp add: join_Cons encode_basestring_ascii_def separator_append)
  have "textual (snd kv)"
    using cons.prems(2) by simp
  then have skip: "skip_whitespace (CHR '' '' # iterencode indent inner (snd kv) @ ?after)
                   = iterencode indent inner (snd kv) @ ?after"
    by (simp add: skip_whitespace_Cons is_whitespace_def skip_whitespace_value)
  obtain kv' dct' where dct: "dct = kv' # dct'"
    using cons.hyps by (cases dct) simp_all
  have skip_tail: "skip_whitespace ?tail = ?tail"
    unfolding dct list.map join_Cons append_assoc
    by (simp add: encode_basestring_ascii_def skip_whitespace_Cons is_whitespace_def)
  have rest_ok: "JSONObject m ?tail = Some (dct, rest)"
    using cons.prems(1,2) fuels by (intro cons.IH) simp_all
  have "JSONObject (Suc m) (CHR 0x22 # ?r) = Some ((fst kv, snd kv) # dct, rest)"
  proof (rule JSONObject_next)
    show "scanstring ?r = Some (fst kv, CHR '':'' # CHR '' '' # iterencode indent inner (snd kv) @ ?after)"
      by (rule scanstring_escaped)
    show "skip_whitespace (CHR '':'' # CHR '' '' # iterencode indent inner (snd kv) @ ?after)
            = CHR '':'' # CHR '' '' # iterencode indent inner (snd kv) @ ?after"
      by (simp add: skip_whitespace_Cons is_whitespace_def)
    show "scan_once m (skip_whitespace (CHR '' '' # iterencode indent inner (snd kv) @ ?after))
            = Some (snd kv, ?after)"
      unfolding skip using cons.prems(1) fuel by simp
    show "skip_whitespace ?after = CHR '','' # tl (separator indent inner) @ ?tail"
      by (simp add: skip_whitespace_Cons is_whitespace_def)
    show "JSONObject m (skip_whitespace (tl (separator indent inner) @ ?tail)) = Some (dct, rest)"
      unfolding skip_whitespace_tl_separator skip_tail by (rule rest_ok)
  qed
  then show ?case
    unfolding n shape by simp
qed

lemma scan_once_iterencode:
  "textual v \<Longrightarrow> fuel_for v \<le> n \<Longrightarrow>
   scan_once n (iterencode indent level v @ rest) = Some (v, rest)"
proof (induction v arbitrary: n level rest)
  case JNull
  then obtain m where "n = Suc m" by (cases n) simp_all
  then show ?case by simp
next
  case (JBool b)
  then obtain m where "n = Suc m" by (cases n) simp_all
  then show ?case by simp
next
  case (JNum literal)
  then show ?case by simp
next
  case (JStr s)
  then obtain m where "n = Suc m" by (cases n) simp_all
  then show ?case
    by (simp add: encode_basestring_ascii_def scanstring_escaped)
next
  case (JArr lst)
  from JArr.prems obtain m where n: "n = Suc m"
    and fuels: "sum_list (map (\<lambda>v. Suc (fuel_for v)) lst) \<le> m"
    by (cases n) simp_all
  show ?case
  proof (cases "lst = []")
    case True
    then show ?thesis
      by (simp add: n skip_whitespace_Cons is_whitespace_def)
  next
    case False
    let ?body = "join (separator indent (Suc level))
                   (map (iterencode indent (Suc level)) lst)
                 @ newline_indent indent level @ CHR '']'' # rest"
    from JArr.prems(1) have texts: "\<And>v. v \<in> set lst \<Longrightarrow> textual v"
      by (simp add: list_all_iff)
    have items: "JSONArray m ?body = Some (lst, rest)"
      using False JArr.IH texts fuels by (intro JSONArray_items) simp_all
    obtain w ws where lst: "lst = w # ws"
      using False by (cases lst) simp_all
    from iterencode_head [OF texts [of w], of indent "Suc level"] lst obtain c t
      where head: "iterencode indent (Suc level) w = c # t"
        and c: "c \<in> set [CHR 0x22, CHR ''['', CHR ''{'', CHR ''n'', CHR ''t'', CHR ''f'']"
      by auto
    then obtain u where body: "?body = c # u"
      by (simp add: lst join_Cons)
    from c have c': "\<not> is_whitespace c" "c \<noteq> CHR '']''"
      by (auto simp add: is_whitespace_def)
    have shape: "iterencode indent level (JArr lst) @ rest
                 = CHR ''['' # newline_indent indent (Suc level) @ ?body"
      using False by simp
    have "scan_once (Suc m) (CHR ''['' # newline_indent indent (Suc level) @ ?body)
            = Some (JArr lst, rest)"
    proof (rule scan_once_array)
      show "skip_whitespace (newline_indent indent (Suc level) @ ?body) = c # u"
        unfolding skip_whitespace_newline_indent body using c'(1)
        by (simp add: skip_whitespace_Cons)
      show "c \<noteq> CHR '']''" by (rule c'(2))
      show "JSONArray m (c # u) = Some (lst, rest)"
        using items unfolding body .
    qed
    then show ?thesis
      unfolding n shape .
  qed
next
  case (JObj dct)
  from JObj.prems obtain m where n: "n = Suc m"
    and fuels: "sum_list (map (\<lambda>kv. Suc (fuel_for (snd kv))) dct) \<le> m"
    by (cases n) simp_all
  from JObj.prems(1) have keys: "distinct (map fst dct)"
    and texts: "\<And>kv. kv \<in> set dct \<Longrightarrow> textual (snd kv)"
    by (simp_all add: list_all_iff)
  show ?case
  proof (cases "dct = []")
    case True
    then show ?thesis
      by (simp add: n skip_whitespace_Cons is_whitespace_def)
  next
    case False
    let ?body = "join (separator indent (Suc level))
                   (map (\<lambda>kv. encode_basestring_ascii (fst kv) @ '': ''
                               @ iterencode indent (Suc level) (snd kv)) dct)
                 @ newline_indent indent level @ CHR ''}'' # rest"
    have IH: "\<And>kv n rest. kv \<in> set dct \<Longrightarrow> fuel_for (snd kv) \<le> n \<Longrightarrow>
           scan_once n (iterencode indent (Suc level) (snd kv) @ rest) = Some (snd kv, rest)"
    proof -
      fix kv :: "string \<times> json" and n rest
      assume "kv \<in> set dct" and "fuel_for (snd kv) \<le> n"
      moreover have "snd kv \<in> Basic_BNFs.snds kv"
        by (cases kv) simp
      ultimately show "scan_once n (iterencode indent (Suc level) (snd kv) @ rest) = Some (snd kv, rest)"
        using texts by (intro JObj.IH) simp_all
    qed
    have items: "JSONObject m ?body = Some (dct, rest)"
      using False IH texts fuels by (intro JSONObject_items) simp_all
    obtain kv dct' where dct: "dct = kv # dct'"
      using False by (cases dct) simp_all
    obtain u where body: "?body = CHR 0x22 # u"
      by (simp add: dct join_Cons encode_basestring_ascii_def)
    have shape: "iterencode indent level (JObj dct) @ rest
                 = CHR ''{'' # newline_indent indent (Suc level) @ ?body"
      using False by simp
    have "scan_once (Suc m) (CHR ''{'' # newline_indent indent (Suc level) @ ?body)
            = Some (JObj (dict_of dct), rest)"
    proof (rule scan_once_object)
      show "skip_whitespace (newline_indent indent (Suc level) @ ?body) = CHR 0x22 # u"
        unfolding skip_whitespace_newline_indent body
        by (simp add: skip_whitespace_Cons is_whitespace_def)
      show "CHR 0x22 \<noteq> CHR ''}''" by simp
      show "JSONObject m (CHR 0x22 # u) = Some (dct, rest)"
        using items unfolding body .
    qed
    then show ?thesis
      unfolding n shape by (simp only: dict_of_distinct [OF keys])
  qed
qed

lemma length_join:
  "sep \<noteq> [] \<Longrightarrow> sum_list (map (\<lambda>x. Suc (length x)) xs) \<le> Suc (length (join sep xs))"
  by (induction sep xs rule: join.induct) (auto simp add: Suc_le_eq neq_Nil_conv)

lemma fuel_for_le_length:
  "textual v \<Longrightarrow> fuel_for v \<le> length (iterencode indent level v)"
proof (induction v arbitrary: level)
  case (JArr lst)
  show ?case
  proof (cases "lst = []")
    case True
    then show ?thesis by simp
  next
    case False
    let ?sep = "separator indent (Suc level)"
    from JArr.prems have "\<And>v. v \<in> set lst \<Longrightarrow> textual v"
      by (simp add: list_all_iff)
    then have "sum_list (map (\<lambda>v. Suc (fuel_for v)) lst)
                 \<le> sum_list (map (\<lambda>v. Suc (length (iterencode indent (Suc level) v))) lst)"
      using JArr.IH by (intro sum_list_mono) simp
    also have "\<dots> = sum_list (map (\<lambda>x. Suc (length x)) (map (iterencode indent (Suc level)) lst))"
      by (simp add: comp_def)
    also have "\<dots> \<le> Suc (length (join ?sep (map (iterencode indent (Suc level)) lst)))"
      by (rule length_join) (simp add: separator_def item_separator_def)
    finally show ?thesis
      using False by simp
  qed
next
  case (JObj dct)
  show ?case
  proof (cases "dct = []")
    case True
    then show ?thesis by simp
  next
    case False
    let ?sep = "separator indent (Suc level)"
    let ?member = "\<lambda>kv. encode_basestring_ascii (fst kv) @ '': ''
                         @ iterencode indent (Suc level) (snd kv)"
    have "fuel_for (snd kv) \<le> length (?member kv)" if "kv \<in> set dct" for kv
    proof -
      have "snd kv \<in> Basic_BNFs.snds kv"
        by (cases kv) simp
      moreover have "textual (snd kv)"
        using JObj.prems that by (simp add: list_all_iff)
      ultimately have "fuel_for (snd kv) \<le> length (iterencode indent (Suc level) (snd kv))"
        using that by (intro JObj.IH)
      then show ?thesis by simp
    qed
    then have "sum_list (map (\<lambda>kv. Suc (fuel_for (snd kv))) dct)
                 \<le> sum_list (map (\<lambda>kv. Suc (length (?member kv))) dct)"
      by (intro sum_list_mono) simp
    also have "\<dots> = sum_list (map (\<lambda>x. Suc (length x)) (map ?member dct))"
      by (simp add: comp_def)
    also have "\<dots> \<le> Suc (length (join ?sep (map ?member dct)))"
      by (rule length_join) (simp add: separator_def item_separator_def)
    finally show ?thesis
      using False by simp
  qed
qed (simp_all add: encode_basestring_ascii_def)

lemma json_loads_dumps: "textual v \<Longrightarrow> json_loads (json_dumps indent v) = Inr v"
proof -
  assume v: "textual v"
  let ?s = "iterencode indent 0 v"
  have "fuel_for v \<le> 2 * length ?s + 2"
    using fuel_for_le_length [OF v, of indent 0] by simp
  then have "scan_once (2 * length ?s + 2) (?s @ []) = Some (v, [])"
    using v by (intro scan_once_iterencode)
  moreover have "skip_whitespace ?s = ?s"
    using skip_whitespace_value [OF v, of indent 0 "[]"] by simp
  ultimately show ?thesis
    by (simp add: json_loads_def json_dumps_def skip_whitespace_def)
qed

subsection \<open>The meta file\<close>

lemma optional_field_round:
  "map_of kvs k = Some (optional_to_json v) \<Longrightarrow> optional_field kvs k = Inr v"
  by (cases v) (simp_all add: optional_field_def optional_to_json_def)

lemma from_dict_image_to_dict: "from_dict (image_to_dict img) = Inr img"
  by (cases img) (simp add: from_dict_def image_to_dict_def optional_field_round and_then_Inr)

lemma from_dict_all_image_to_dict: "from_dict_all (map image_to_dict imgs) = Inr imgs"
  by (induction imgs) (simp_all add: from_dict_image_to_dict and_then_Inr)

lemma decode_to_dict:
  "decode_meta path (to_dict c) = Inr (c\<lparr>work_directory := path\<rparr>)"
  by (cases c; cases "Collection.title c")
    (simp_all add: decode_meta_def to_dict_def iterate_def from_dict_all_image_to_dict
      and_then_Inr optional_to_json_def title_of_json_def)

lemma textual_optional_to_json: "textual (optional_to_json v)"
  by (cases v) (simp_all add: optional_to_json_def)

lemma textual_image_to_dict: "textual (image_to_dict img)"
  by (simp add: image_to_dict_def textual_optional_to_json)

lemma textual_to_dict: "textual (to_dict c)"
  by (simp add: to_dict_def textual_optional_to_json textual_image_to_dict list_all_iff)

text \<open>Parsing \<^verbatim>\<open>to_json\<close> back gives the document, so \<^verbatim>\<open>__write_meta\<close> is one write.\<close>

lemma json_loads_to_json: "json_loads (to_json c) = Inr (to_dict c)"
  by (simp add: to_json_def json_loads_dumps textual_to_dict)

lemma write_meta_eq:
  "write_meta fs c
     = write_file fs (work_directory c) META_FILENAME (json_dumps (Some 4) (to_dict c))"
  by (auto simp add: write_meta_def write_file_def json_loads_to_json update_conv'
      split: option.splits entry.splits)

lemma write_meta_over_file:
  "fs (work_directory c) = Some entries \<Longrightarrow> map_of entries META_FILENAME \<noteq> Some Directory
   \<Longrightarrow> write_meta fs c
       = (Inr (), fs(work_directory c \<mapsto>
            AList.update META_FILENAME (File (json_dumps (Some 4) (to_dict c))) entries))"
  by (auto simp add: write_meta_eq write_file_def split: option.splits entry.splits)

lemma write_meta_read_back:
  "write_meta fs c = (Inr u, fs') \<Longrightarrow>
   read_file fs' (work_directory c) META_FILENAME = Inr (json_dumps (Some 4) (to_dict c))"
  by (auto simp add: write_meta_eq write_file_def read_file_def update_conv'
      split: option.splits entry.splits)

lemma load_meta_written:
  "read_file fs path META_FILENAME = Inr (json_dumps (Some 4) (to_dict c)) \<Longrightarrow>
   load_meta fs path = Inr (c\<lparr>work_directory := path\<rparr>)"
  by (simp add: load_meta_def json_loads_dumps textual_to_dict decode_to_dict)

lemma write_then_load:
  assumes "write_meta fs c = (Inr u, fs')"
  shows "load_meta fs' (work_directory c) = Inr c"
  using load_meta_written [OF write_meta_read_back [OF assms]] by simp

text \<open>
  C3. For every title and every list of images, \<^verbatim>\<open>__write_meta\<close> of the collection,
  in a work directory that exists and has no sub-directory under the name of the meta
  file, succeeds, and \<^verbatim>\<open>__load_meta\<close> of the file it wrote, through the text of
  \<^verbatim>\<open>json.dumps\<close> and the parser of \<^verbatim>\<open>json.loads\<close>, returns the same title and the same
  list, every field of every image included.
\<close>

theorem sidecar_round_trip:
  assumes "fs wd = Some entries" and "map_of entries META_FILENAME \<noteq> Some Directory"
  shows "\<exists>fs'. write_meta fs \<lparr>work_directory = wd, title = t, collection = imgs\<rparr>
                 = (Inr (), fs')
           \<and> load_meta fs' wd = Inr \<lparr>work_directory = wd, title = t, collection = imgs\<rparr>"
proof -
  let ?c = "\<lparr>work_directory = wd, title = t, collection = imgs\<rparr>"
  from assms obtain fs' where written: "write_meta fs ?c = (Inr (), fs')"
    using write_meta_over_file [of fs ?c entries] by simp
  from write_then_load [OF written] have "load_meta fs' wd = Inr ?c"
    by simp
  with written show ?thesis
    by blast
qed

theorem sidecar_round_trip_witness:
  "fst (write_meta disk
          \<lparr>work_directory = ''/coll'', title = Some ''Sketches'',
           collection = [monet, vase, fresco]\<rparr>) = Inr ()
   \<and> load_meta
         (snd (write_meta disk
                 \<lparr>work_directory = ''/coll'', title = Some ''Sketches'',
                  collection = [monet, vase, fresco]\<rparr>)) ''/coll''
       = Inr \<lparr>work_directory = ''/coll'', title = Some ''Sketches'',
              collection = [monet, vase, fresco]\<rparr>"
  using sidecar_round_trip [of disk "''/coll''" "the (disk ''/coll'')" "Some ''Sketches''"
      "[monet, vase, fresco]"]
  by (auto simp add: disk_def META_FILENAME_def)

text \<open>The text of a small meta file, as Python writes it.\<close>

lemma json_dumps_gallery:
  "json_dumps (Some 4) (to_dict (gallery\<lparr>collection := [new_image ''a.png'']\<rparr>))
     = concat
         [''{'', [CHR 0x0A],
          ''    '', [CHR 0x22], ''work_directory'', [CHR 0x22], '': '',
            [CHR 0x22], ''/gallery'', [CHR 0x22], '','', [CHR 0x0A],
          ''    '', [CHR 0x22], ''title'', [CHR 0x22], '': '',
            [CHR 0x22], ''Untitled Collection'', [CHR 0x22], '','', [CHR 0x0A],
          ''    '', [CHR 0x22], ''collection'', [CHR 0x22], '': ['', [CHR 0x0A],
          ''        {'', [CHR 0x0A],
          ''            '', [CHR 0x22], ''filename'', [CHR 0x22], '': '',
            [CHR 0x22], ''a.png'', [CHR 0x22], '','', [CHR 0x0A],
          ''            '', [CHR 0x22], ''title'', [CHR 0x22], '': null,'', [CHR 0x0A],
          ''            '', [CHR 0x22], ''artist'', [CHR 0x22], '': null,'', [CHR 0x0A],
          ''            '', [CHR 0x22], ''year'', [CHR 0x22], '': null,'', [CHR 0x0A],
          ''            '', [CHR 0x22], ''technique'', [CHR 0x22], '': null,'', [CHR 0x0A],
          ''            '', [CHR 0x22], ''conservation_site'', [CHR 0x22], '': null,'',
            [CHR 0x0A],
          ''            '', [CHR 0x22], ''production_site'', [CHR 0x22], '': null,'',
            [CHR 0x0A],
          ''            '', [CHR 0x22], ''dimensions'', [CHR 0x22], '': null'', [CHR 0x0A],
          ''        }'', [CHR 0x0A],
          ''    ]'', [CHR 0x0A],
          ''}'']"
  by code_simp

subsection \<open>Errors of the decoder\<close>

lemma optional_field_error: "optional_field kvs k = Inl e \<Longrightarrow> e = TypeError"
  by (auto simp add: optional_field_def split: option.splits json.splits)

lemma from_dict_error: "from_dict item = Inl e \<Longrightarrow> e = TypeError \<or> e = KeyError"
  by (auto simp add: from_dict_def and_then_eq_Inl split: json.splits option.splits
      dest: optional_field_error)

lemma from_dict_all_error:
  "from_dict_all items = Inl e \<Longrightarrow> e = TypeError \<or> e = KeyError"
  by (induction items) (auto simp add: and_then_eq_Inl dest: from_dict_error)

lemma iterate_error: "iterate v = Inl e \<Longrightarrow> e = TypeError"
  by (auto simp add: iterate_def split: json.splits)

lemma title_of_json_error: "title_of_json v = Inl e \<Longrightarrow> e = TypeError"
  by (auto simp add: title_of_json_def split: json.splits)

lemma decode_meta_error:
  "decode_meta path d = Inl e \<Longrightarrow> e = TypeError \<or> e = KeyError"
  by (auto simp add: decode_meta_def and_then_eq_Inl split: json.splits option.splits
      dest: from_dict_all_error iterate_error title_of_json_error)

lemma json_loads_error: "json_loads s = Inl e \<Longrightarrow> e = JSONDecodeError"
  by (auto simp add: json_loads_def split: option.splits prod.splits if_splits)

lemma decode_meta_work_directory:
  "decode_meta path d = Inr c \<Longrightarrow> work_directory c = path"
  by (auto simp add: decode_meta_def and_then_eq_Inr split: json.splits option.splits)

subsection \<open>The steps of \<^verbatim>\<open>load\<close>\<close>

lemma map_of_listed: "name \<in> set (map fst entries) \<Longrightarrow> map_of entries name \<noteq> None"
  by (simp add: map_of_eq_None_iff)

lemma load_meta_error:
  assumes "fs path = Some entries" and "META_FILENAME \<in> set (map fst entries)"
    and "load_meta fs path = Inl e"
  shows "e \<noteq> FileNotFoundError"
proof -
  from assms(2) have "map_of entries META_FILENAME \<noteq> None"
    by (rule map_of_listed)
  with assms(1,3) show ?thesis
    by (auto simp add: load_meta_def read_file_def
        split: option.splits entry.splits sum.splits
        dest: decode_meta_error json_loads_error)
qed

lemma load_meta_leaves_file:
  assumes "load_meta fs path = Inr c"
  shows "work_directory c = path
         \<and> (\<exists>entries content. fs path = Some entries
               \<and> map_of entries META_FILENAME = Some (File content))"
  using assms
  by (auto simp add: load_meta_def read_file_def
      split: option.splits entry.splits sum.splits
      dest: decode_meta_work_directory)

lemma check_files_listed:
  "fs (work_directory c) = Some entries \<Longrightarrow>
   check_files fs c = Inr (c\<lparr>collection := check_files_loop (collection c) (map fst entries)\<rparr>)"
  by (simp add: check_files_def listdir_def)

lemma create_meta_new:
  "fs path = Some entries \<Longrightarrow> map_of entries META_FILENAME = None
   \<Longrightarrow> create_meta fs path
       = (Inr (), fs(path \<mapsto> entries @ [(META_FILENAME, File [])]))"
  by (simp add: create_meta_def)

lemma load_not_found:
  "fs path = None \<or> fs path = Some [] \<Longrightarrow> load fs path = (Inl FileNotFoundError, fs)"
  by (auto simp add: load_def listdir_def)

lemma load_with_meta:
  assumes "fs path = Some entries" and "entries \<noteq> []"
    and "META_FILENAME \<in> set (map fst entries)"
  shows "fst (load fs path) \<noteq> Inl FileNotFoundError"
proof (cases "load_meta fs path")
  case (Inl e)
  with load_meta_error [OF assms(1,3) Inl] assms show ?thesis
    by (simp add: load_def listdir_def)
next
  case (Inr c)
  from load_meta_leaves_file [OF Inr] assms(1) obtain content
    where wd: "work_directory c = path"
      and meta: "map_of entries META_FILENAME = Some (File content)"
    by auto
  from assms(1) wd have f: "fs (work_directory c) = Some entries"
    by simp
  let ?checked = "c\<lparr>collection := check_files_loop (collection c) (map fst entries)\<rparr>"
  have chk: "check_files fs c = Inr ?checked"
    using f by (rule check_files_listed)
  have "fs (work_directory ?checked) = Some entries"
    using f by simp
  moreover have "map_of entries META_FILENAME \<noteq> Some Directory"
    using meta by simp
  ultimately obtain fs2 where wr: "write_meta fs ?checked = (Inr (), fs2)"
    using write_meta_over_file by blast
  show ?thesis
    using assms Inr chk wr by (simp add: load_def listdir_def)
qed

lemma load_without_meta:
  assumes "fs path = Some entries" and "entries \<noteq> []"
    and "META_FILENAME \<notin> set (map fst entries)"
  shows "fst (load fs path) \<noteq> Inl FileNotFoundError"
proof -
  let ?entries1 = "entries @ [(META_FILENAME, File [])]"
  let ?fs1 = "fs(path \<mapsto> ?entries1)"
  let ?c = "\<lparr>work_directory = path, title = Some ''Untitled Collection'', collection = []\<rparr>"
  let ?checked = "?c\<lparr>collection := check_files_loop (collection ?c) (map fst ?entries1)\<rparr>"
  from assms(3) have none: "map_of entries META_FILENAME = None"
    by (simp add: map_of_eq_None_iff)
  have created: "create_meta fs path = (Inr (), ?fs1)"
    using assms(1) none by (rule create_meta_new)
  have f1: "?fs1 (work_directory ?c) = Some ?entries1"
    by simp
  have chk: "check_files ?fs1 ?c = Inr ?checked"
    using f1 by (rule check_files_listed)
  have "?fs1 (work_directory ?checked) = Some ?entries1"
    by simp
  moreover have "map_of ?entries1 META_FILENAME \<noteq> Some Directory"
    using none by (simp add: map_add_def)
  ultimately obtain fs2 where wr: "write_meta ?fs1 ?checked = (Inr (), fs2)"
    using write_meta_over_file by blast
  show ?thesis
    using assms created chk wr by (simp add: load_def listdir_def)
qed

text \<open>
  C9. \<^const>\<open>load\<close> raises \<^verbatim>\<open>FileNotFoundError\<close> when the path names no directory and
  when its listing is empty, and the disk is then as it was: no meta file is created.
  On a directory with at least one entry, whatever \<^const>\<open>load\<close> does, it does not
  raise \<^verbatim>\<open>FileNotFoundError\<close>.
\<close>

theorem load_empty_or_missing:
  "((fs path = None \<or> fs path = Some []) \<longrightarrow> load fs path = (Inl FileNotFoundError, fs))
   \<and> (\<forall>entry entries. fs path = Some (entry # entries) \<longrightarrow>
         fst (load fs path) \<noteq> Inl FileNotFoundError)"
  using load_not_found [of fs path] load_with_meta [of fs path] load_without_meta [of fs path]
  by blast

theorem load_empty_or_missing_witness:
  "load disk ''/nowhere'' = (Inl FileNotFoundError, disk)
   \<and> load disk ''/empty'' = (Inl FileNotFoundError, disk)
   \<and> fst (load disk ''/coll'') \<noteq> Inl FileNotFoundError
   \<and> fst (load unsorted_disk ''/gallery'') \<noteq> Inl FileNotFoundError"
  using load_empty_or_missing [of disk "''/nowhere''"]
    load_empty_or_missing [of disk "''/empty''"]
    load_empty_or_missing [of disk "''/coll''"]
    load_empty_or_missing [of unsorted_disk "''/gallery''"]
  by (simp add: disk_def unsorted_disk_def)

subsection \<open>\<^verbatim>\<open>add_image\<close> and the format check\<close>

text \<open>
  C8. When the base name of the source does not end with an authorized extension,
  \<^const>\<open>add_image\<close> raises \<^verbatim>\<open>ValueError\<close>, and the disk (the directory and the meta file
  with it) and the collection are as they were.
\<close>

theorem add_image_unsupported_format:
  "\<not> endswith (lower (basename (clean_source source))) AUTHORIZED_IMAGE_FORMATS
   \<Longrightarrow> add_image fs self source = (Inl ValueError, fs, self)"
  by (simp add: add_image_def Let_def)

theorem add_image_unsupported_format_witness:
  "\<not> endswith (lower (basename (clean_source ''/tmp/doc.pdf''))) AUTHORIZED_IMAGE_FORMATS
   \<and> add_image disk studies ''/tmp/doc.pdf'' = (Inl ValueError, disk, studies)"
proof -
  have name: "basename (clean_source ''/tmp/doc.pdf'') = ''doc.pdf''"
    by (simp add: basename_def clean_source_def startswith_def splitdrive_def is_sep_def)
  have h: "\<not> endswith (lower (basename (clean_source ''/tmp/doc.pdf'')))
             AUTHORIZED_IMAGE_FORMATS"
    by (simp add: name endswith_def lower_def lower_char_def AUTHORIZED_IMAGE_FORMATS_def
        suffix_to_prefix)
  show ?thesis
    using h add_image_unsupported_format [OF h, of disk studies] by simp
qed

subsection \<open>The loop of \<^verbatim>\<open>__check_files\<close>\<close>

lemma contains_iff: "contains coll (new_image name) \<longleftrightarrow> name \<in> filename ` set coll"
  by (auto simp add: contains_def eq_image_def new_image_def list_ex_iff)

lemma filename_new_image: "filename (new_image name) = name"
  by (simp add: new_image_def)

lemma check_files_loop_filenames:
  "filename ` set (check_files_loop coll names)
     = filename ` set coll
       \<union> {name \<in> set names. endswith (lower name) AUTHORIZED_IMAGE_FORMATS}"
  by (induction names arbitrary: coll) (auto simp add: contains_iff filename_new_image)

lemma check_files_loop_known:
  "\<forall>name \<in> set names. endswith (lower name) AUTHORIZED_IMAGE_FORMATS \<longrightarrow>
      name \<in> filename ` set coll
   \<Longrightarrow> check_files_loop coll names = coll"
  by (induction names arbitrary: coll) (simp_all add: contains_iff)

lemma check_files_loop_append:
  "distinct names \<Longrightarrow>
   check_files_loop coll names
     = coll @ map new_image
         (filter (\<lambda>name. endswith (lower name) AUTHORIZED_IMAGE_FORMATS
                     \<and> name \<notin> filename ` set coll) names)"
proof (induction names arbitrary: coll)
  case Nil
  show ?case by simp
next
  case (Cons name names)
  from Cons.prems have fresh: "name \<notin> set names" and rest: "distinct names"
    by simp_all
  have same: "filter (\<lambda>n. endswith (lower n) AUTHORIZED_IMAGE_FORMATS
                     \<and> n \<notin> filename ` set (coll @ [new_image name])) names
            = filter (\<lambda>n. endswith (lower n) AUTHORIZED_IMAGE_FORMATS
                     \<and> n \<notin> filename ` set coll) names"
    using fresh by (intro filter_cong) (auto simp add: filename_new_image)
  show ?case
    using Cons.IH [OF rest, of coll] Cons.IH [OF rest, of "coll @ [new_image name]"] same
    by (simp add: contains_iff)
qed

text \<open>A list without two equal filenames stays so through the loop.\<close>

lemma check_files_loop_distinct:
  "distinct (map filename coll) \<Longrightarrow> distinct (map filename (check_files_loop coll names))"
  by (induction names arbitrary: coll) (simp_all add: contains_iff filename_new_image)

lemma endswith_authorized:
  "endswith s AUTHORIZED_IMAGE_FORMATS
     = list_ex (\<lambda>ext. suffix ext s) [''.jpg'', ''.jpeg'', ''.png'', ''.webp'', ''.tiff'']"
  by (simp add: endswith_def AUTHORIZED_IMAGE_FORMATS_def)

text \<open>
  C2, as the code has it. When the names of the listing are distinct, as those of a
  directory are, \<^const>\<open>check_files\<close> returns the images it was given, unchanged and in
  their order, whether or not their files are still listed, followed by one image with
  only the filename set for each listed name that ends with an authorized extension
  and is not the filename of a given image. The new images come in the order of the
  listing, which is the order \<^verbatim>\<open>os.listdir\<close> enumerates the directory in; the code does
  not sort the names.
\<close>

theorem check_files_appends:
  assumes "fs (work_directory c) = Some entries" and "distinct (map fst entries)"
  shows "check_files fs c =
           Inr (c\<lparr>collection :=
                  collection c @ map new_image
                    (filter (\<lambda>name. endswith (lower name) AUTHORIZED_IMAGE_FORMATS
                                \<and> name \<notin> filename ` set (collection c))
                       (map fst entries))\<rparr>)"
  using assms by (simp add: check_files_listed check_files_loop_append)

theorem check_files_appends_witness:
  "check_files disk studies = Inr studies
   \<and> check_files unsorted_disk (gallery\<lparr>collection := [monet]\<rparr>)
       = Inr (gallery\<lparr>collection := [monet, new_image ''b.png'', new_image ''a.png'']\<rparr>)"
  using check_files_appends [of disk studies "the (disk ''/coll'')"]
    check_files_appends [of unsorted_disk "gallery\<lparr>collection := [monet]\<rparr>"
      "the (unsorted_disk ''/gallery'')"]
  by (simp add: disk_def studies_def unsorted_disk_def gallery_def endswith_authorized
      lower_def lower_char_def suffix_to_prefix new_image_def monet_def)

text \<open>
  C2 as it is written has the new images in lexicographic order of their filenames;
  the listing of \<^const>\<open>unsorted_disk\<close> gives \<^verbatim>\<open>b.png\<close> before \<^verbatim>\<open>a.png\<close>, and so does the
  collection.
\<close>

theorem check_files_order_counterexample:
  "check_files unsorted_disk gallery
     = Inr (gallery\<lparr>collection := [new_image ''b.png'', new_image ''a.png'']\<rparr>)
   \<and> \<not> sorted (map filename [new_image ''b.png'', new_image ''a.png''])"
  by (simp add: check_files_def listdir_def unsorted_disk_def gallery_def
      endswith_authorized lower_def lower_char_def suffix_to_prefix contains_def
      eq_image_def new_image_def)

text \<open>
  C4. Running the loop of \<^verbatim>\<open>__check_files\<close> again, on its own result and the same
  listing, changes nothing.
\<close>

theorem check_files_loop_idempotent:
  "check_files_loop (check_files_loop coll names) names = check_files_loop coll names"
  by (rule check_files_loop_known) (simp add: check_files_loop_filenames)

theorem check_files_loop_idempotent_witness:
  "check_files_loop (check_files_loop [monet] [''b.png'', ''notes.txt'', ''monet.jpg''])
       [''b.png'', ''notes.txt'', ''monet.jpg'']
     = [monet, new_image ''b.png'']"
  using check_files_loop_idempotent [of "[monet]" "[''b.png'', ''notes.txt'', ''monet.jpg'']"]
  by (simp add: endswith_authorized lower_def lower_char_def suffix_to_prefix contains_def
      eq_image_def new_image_def monet_def)

text \<open>
  C6, as the code has it. \<^const>\<open>check_files\<close> admits exactly the entries of the listing
  whose lowercased name ends with \<^verbatim>\<open>.jpg\<close>, \<^verbatim>\<open>.jpeg\<close>, \<^verbatim>\<open>.png\<close>, \<^verbatim>\<open>.webp\<close> or \<^verbatim>\<open>.tiff\<close>, under
  the name as it is listed: the filenames of the result are those of the images given
  and these names. An entry is admitted by its name alone, a sub-directory as a file is.
\<close>

theorem check_files_admits:
  assumes "fs (work_directory c) = Some entries"
  shows "\<exists>checked. check_files fs c = Inr checked
           \<and> filename ` set (collection checked)
               = filename ` set (collection c)
                 \<union> set (filter
                     (\<lambda>name. list_ex (\<lambda>ext. suffix ext (lower name))
                                [''.jpg'', ''.jpeg'', ''.png'', ''.webp'', ''.tiff''])
                     (map fst entries))"
  using assms
  by (auto simp add: check_files_listed check_files_loop_filenames endswith_authorized)

theorem check_files_admits_witness:
  "\<exists>checked. check_files nested_disk gallery = Inr checked
     \<and> filename ` set (collection checked) = {''scans.jpg'', ''photo.JPG''}"
  using check_files_admits [of nested_disk gallery "the (nested_disk ''/gallery'')"]
  by (simp add: nested_disk_def gallery_def lower_def lower_char_def suffix_to_prefix)

text \<open>
  C6 as it is written leaves sub-directories out; the sub-directory \<^verbatim>\<open>scans.jpg\<close> of
  \<^const>\<open>nested_disk\<close> becomes an image of the collection.
\<close>

theorem check_files_directory_counterexample:
  "map_of (the (nested_disk ''/gallery'')) ''scans.jpg'' = Some Directory
   \<and> check_files nested_disk gallery
       = Inr (gallery\<lparr>collection := [new_image ''scans.jpg'', new_image ''photo.JPG'']\<rparr>)"
  by (simp add: check_files_def listdir_def nested_disk_def gallery_def
      endswith_authorized lower_def lower_char_def suffix_to_prefix contains_def
      eq_image_def new_image_def)

subsection \<open>Saving after a change\<close>

lemma add_image_saved:
  assumes "add_image fs self source = (Inr img, fs', self')"
  shows "img = new_image (basename (clean_source source))
         \<and> self' = self\<lparr>collection := collection self @ [img]\<rparr>
         \<and> read_file fs' (work_directory self) META_FILENAME
             = Inr (json_dumps (Some 4) (to_dict self'))
         \<and> load_meta fs' (work_directory self) = Inr self'"
proof -
  let ?name = "basename (clean_source source)"
  let ?self1 = "self\<lparr>collection := collection self @ [new_image ?name]\<rparr>"
  have ok: "endswith (lower ?name) AUTHORIZED_IMAGE_FORMATS"
  proof (rule ccontr)
    assume "\<not> endswith (lower ?name) AUTHORIZED_IMAGE_FORMATS"
    with assms show False
      by (simp add: add_image_def Let_def)
  qed
  obtain r1 fs1
    where copied: "copyfile fs (clean_source source) (work_directory self) ?name = (r1, fs1)"
    by (cases "copyfile fs (clean_source source) (work_directory self) ?name")
  obtain r2 fs2 where saved: "save fs1 ?self1 = (r2, fs2)"
    by (cases "save fs1 ?self1")
  from assms ok copied obtain u1 where r1: "r1 = Inr u1"
    by (cases r1) (simp_all add: add_image_def Let_def)
  from assms ok copied saved r1 obtain u where r2: "r2 = Inr u"
    by (cases r2) (simp_all add: add_image_def Let_def)
  have "add_image fs self source = (Inr (new_image ?name), fs2, ?self1)"
    using ok by (simp add: add_image_def Let_def copied saved r1 r2)
  with assms [symmetric]
  have "(Inr img :: error + CollectionImage, fs', self') = (Inr (new_image ?name), fs2, ?self1)"
    by (rule trans)
  then have img: "img = new_image ?name" and fs': "fs' = fs2" and self': "self' = ?self1"
    by simp_all
  from saved r2 fs' have written: "write_meta fs1 ?self1 = (Inr u, fs')"
    by (simp add: save_def)
  show ?thesis
    unfolding img self'
    using write_meta_read_back [OF written] write_then_load [OF written] by simp
qed

lemma set_collection_saved:
  assumes "set_collection fs self coll_list = (Inr u, fs', self')"
  shows "self' = self\<lparr>collection := coll_list\<rparr>
         \<and> read_file fs' (work_directory self) META_FILENAME
             = Inr (json_dumps (Some 4) (to_dict self'))
         \<and> load_meta fs' (work_directory self) = Inr self'"
proof -
  let ?self1 = "self\<lparr>collection := coll_list\<rparr>"
  from assms have saved: "save fs ?self1 = (Inr u, fs')" and self': "self' = ?self1"
    by (auto simp add: set_collection_def Let_def split: prod.splits)
  from saved have written: "write_meta fs ?self1 = (Inr u, fs')"
    by (simp add: save_def)
  from write_meta_read_back [OF written] write_then_load [OF written] self'
  show ?thesis
    by simp
qed

text \<open>
  C5. When \<^const>\<open>add_image\<close> returns without raising, the collection in memory is the
  one it was given with the new image, of the base name of the source, appended; when
  \<^const>\<open>set_collection\<close> does, it is the one it was given with the new list in place of
  the old. In both cases the meta file of the work directory then holds the text of
  that collection, as \<^verbatim>\<open>__write_meta\<close> writes it, and \<^verbatim>\<open>__load_meta\<close> reads that
  collection back from it.
\<close>

theorem mutation_is_saved:
  "(add_image fs self source = (Inr img, fs', self') \<longrightarrow>
      img = new_image (basename (clean_source source))
      \<and> self' = self\<lparr>collection := collection self @ [img]\<rparr>
      \<and> read_file fs' (work_directory self) META_FILENAME
          = Inr (json_dumps (Some 4) (to_dict self'))
      \<and> load_meta fs' (work_directory self) = Inr self')
   \<and> (set_collection fs self coll_list = (Inr u, fs'', self'') \<longrightarrow>
      self'' = self\<lparr>collection := coll_list\<rparr>
      \<and> read_file fs'' (work_directory self) META_FILENAME
          = Inr (json_dumps (Some 4) (to_dict self''))
      \<and> load_meta fs'' (work_directory self) = Inr self'')"
  using add_image_saved [of fs self source img fs' self']
    set_collection_saved [of fs self coll_list u fs'' self'']
  by blast

lemma basename_art: "basename ''/tmp/art.png'' = ''art.png''"
  by (simp add: basename_def splitdrive_def is_sep_def)

lemma clean_art: "clean_source ''/tmp/art.png'' = ''/tmp/art.png''"
  by (simp add: clean_source_def startswith_def)

lemma os_path_split_art: "os_path_split ''/tmp/art.png'' = (''/tmp'', ''art.png'')"
  by (simp add: os_path_split_def Let_def)

lemma add_image_art:
  "add_image disk studies ''/tmp/art.png''
     = (Inr (new_image ''art.png''),
        disk(''/coll'' \<mapsto>
          [(''art.png'', File ''new''),
           (''.collection'',
            File (json_dumps (Some 4) (to_dict
              (studies\<lparr>collection := collection studies @ [new_image ''art.png'']\<rparr>))))]),
        studies\<lparr>collection := collection studies @ [new_image ''art.png'']\<rparr>)"
proof -
  have ok: "endswith (lower ''art.png'') AUTHORIZED_IMAGE_FORMATS"
    by (simp add: endswith_authorized lower_def lower_char_def suffix_to_prefix)
  have wd: "work_directory studies = ''/coll''"
    by (simp add: studies_def)
  have copied: "copyfile disk ''/tmp/art.png'' ''/coll'' ''art.png''
      = (Inr (), disk(''/coll'' \<mapsto>
           [(''art.png'', File ''new''),
            (''.collection'', File (json_dumps (Some 4) (to_dict studies)))]))"
    by (simp add: copyfile_def os_path_split_art read_file_def write_file_def disk_def)
  show ?thesis
    by (simp add: add_image_def Let_def basename_art clean_art ok wd copied save_def
        write_meta_eq write_file_def META_FILENAME_def)
qed

lemma set_collection_monet_vase:
  "set_collection disk studies [monet, vase]
     = (Inr (),
        disk(''/coll'' \<mapsto>
          [(''art.png'', File ''old''),
           (''.collection'',
            File (json_dumps (Some 4) (to_dict (studies\<lparr>collection := [monet, vase]\<rparr>))))]),
        studies\<lparr>collection := [monet, vase]\<rparr>)"
proof -
  have wd: "work_directory studies = ''/coll''"
    by (simp add: studies_def)
  show ?thesis
    by (simp add: set_collection_def Let_def save_def write_meta_eq write_file_def wd
        META_FILENAME_def disk_def)
qed

theorem mutation_is_saved_witness:
  "add_image disk studies ''/tmp/art.png''
     = (Inr (new_image ''art.png''),
        disk(''/coll'' \<mapsto>
          [(''art.png'', File ''new''),
           (''.collection'',
            File (json_dumps (Some 4) (to_dict
              (studies\<lparr>collection := collection studies @ [new_image ''art.png'']\<rparr>))))]),
        studies\<lparr>collection := collection studies @ [new_image ''art.png'']\<rparr>)
   \<and> load_meta
         (disk(''/coll'' \<mapsto>
            [(''art.png'', File ''new''),
             (''.collection'',
              File (json_dumps (Some 4) (to_dict
                (studies\<lparr>collection := collection studies @ [new_image ''art.png'']\<rparr>))))]))
         ''/coll''
       = Inr (studies\<lparr>collection := collection studies @ [new_image ''art.png'']\<rparr>)
   \<and> set_collection disk studies [monet, vase]
       = (Inr (),
          disk(''/coll'' \<mapsto>
            [(''art.png'', File ''old''),
             (''.collection'',
              File (json_dumps (Some 4)
                (to_dict (studies\<lparr>collection := [monet, vase]\<rparr>))))]),
          studies\<lparr>collection := [monet, vase]\<rparr>)
   \<and> load_meta
         (disk(''/coll'' \<mapsto>
            [(''art.png'', File ''old''),
             (''.collection'',
              File (json_dumps (Some 4)
                (to_dict (studies\<lparr>collection := [monet, vase]\<rparr>))))]))
         ''/coll''
       = Inr (studies\<lparr>collection := [monet, vase]\<rparr>)"
proof -
  let ?added = "studies\<lparr>collection := collection studies @ [new_image ''art.png'']\<rparr>"
  let ?replaced = "studies\<lparr>collection := [monet, vase]\<rparr>"
  let ?fs1 = "disk(''/coll'' \<mapsto>
                [(''art.png'', File ''new''),
                 (''.collection'', File (json_dumps (Some 4) (to_dict ?added)))])"
  let ?fs2 = "disk(''/coll'' \<mapsto>
                [(''art.png'', File ''old''),
                 (''.collection'', File (json_dumps (Some 4) (to_dict ?replaced)))])"
  have wd: "work_directory studies = ''/coll''"
    by (simp add: studies_def)
  show ?thesis
    using mutation_is_saved [of disk studies "''/tmp/art.png''" "new_image ''art.png''"
        ?fs1 ?added "[monet, vase]" "()" ?fs2 ?replaced]
    by (simp add: add_image_art set_collection_monet_vase wd basename_art clean_art)
qed

subsection \<open>Adding a file the collection already has\<close>

text \<open>
  C1, on the failing input. The collection \<^const>\<open>studies\<close> knows \<^verbatim>\<open>art.png\<close>; adding
  \<^verbatim>\<open>/tmp/art.png\<close> succeeds, and the list then has two images with that filename,
  where the loop of \<^verbatim>\<open>__check_files\<close> would have added none
  (\<open>check_files_loop_distinct\<close>).
\<close>

theorem add_image_duplicate:
  "distinct (map filename (collection studies))
   \<and> fst (add_image disk studies ''/tmp/art.png'') = Inr (new_image ''art.png'')
   \<and> map filename (collection (snd (snd (add_image disk studies ''/tmp/art.png''))))
       = [''art.png'', ''art.png'']"
  by (simp add: add_image_art) (simp add: studies_def new_image_def)

end
